theory Spec2Isabelle
  imports Complex_Main "HOL-Library.AList"
begin

section \<open>JavaScript strings\<close>

text \<open>
  The content script \<^verbatim>\<open>src/content/content.ts\<close> works on JavaScript strings. They are
  modelled as \<^typ>\<open>string\<close>, one \<^typ>\<open>char\<close> per UTF-16 code unit (so only code units
  below 256 are representable); \<^verbatim>\<open>length\<close>, \<^verbatim>\<open>substring\<close>, \<^verbatim>\<open>startsWith\<close>,
  \<^verbatim>\<open>includes\<close>, \<^verbatim>\<open>trim\<close> and \<^verbatim>\<open>replace\<close> (string pattern) are the list functions
  below. \<^verbatim>\<open>a || b\<close> on strings picks \<open>b\<close> when \<open>a\<close> is empty.
\<close>

definition startsWith :: "string \<Rightarrow> string \<Rightarrow> bool" where
  "startsWith s p = (take (length p) s = p)"

fun str_includes :: "string \<Rightarrow> string \<Rightarrow> bool" where
  "str_includes [] p = (p = [])"
| "str_includes (c # cs) p = (startsWith (c # cs) p \<or> str_includes cs p)"

definition white_space :: "char list" where
  "white_space = [CHR '' '', CHR 0x09, CHR 0x0A, CHR 0x0B, CHR 0x0C, CHR 0x0D, CHR 0xA0]"

definition trim :: "string \<Rightarrow> string" where
  "trim s = rev (dropWhile (\<lambda>c. c \<in> set white_space) (rev (dropWhile (\<lambda>c. c \<in> set white_space) s)))"

fun remove_first :: "string \<Rightarrow> string \<Rightarrow> string" where
  "remove_first [] p = []"
| "remove_first (c # cs) p =
     (if startsWith (c # cs) p then drop (length p) (c # cs) else c # remove_first cs p)"

definition or_else :: "string \<Rightarrow> string \<Rightarrow> string" where
  "or_else a b = (if a = [] then b else a)"

definition or_empty :: "string option \<Rightarrow> string" where
  "or_empty a = (case a of None \<Rightarrow> [] | Some s \<Rightarrow> s)"

definition truthy :: "string \<Rightarrow> string option" where
  "truthy a = (if a = [] then None else Some a)"

fun join :: "string \<Rightarrow> string list \<Rightarrow> string" where
  "join sep [] = []"
| "join sep [x] = x"
| "join sep (x # y # ys) = x @ sep @ join sep (y # ys)"

text \<open>A number in a template literal: its decimal digits.\<close>

definition digits :: "char list" where
  "digits = ''0123456789''"

fun decimal :: "nat \<Rightarrow> string" where
  "decimal k =
     (let last_digit = digits ! (k mod 10)
      in if k div 10 = 0 then [last_digit] else decimal (k div 10) @ [last_digit])"

declare decimal.simps [simp del]

definition decimal_int :: "int \<Rightarrow> string" where
  "decimal_int i = (if i < 0 then CHR ''-'' # decimal (nat (- i)) else decimal (nat i))"

definition letters :: "char list" where
  "letters = ''abcdefghijklmnopqrstuvwxyzABCDEFGHIJKLMNOPQRSTUVWXYZ''"

text \<open>The character class \<^verbatim>\<open>\w\<close> of a JavaScript regular expression.\<close>

definition word_chars :: "char list" where
  "word_chars = letters @ digits @ ''_''"

section \<open>The document\<close>

text \<open>
  An element carries what the script reads from it: its identity (\<open>ref\<close>, standing for
  the JavaScript object), its local name (lower case, as for an HTML element of an HTML
  document, so \<^verbatim>\<open>tagName\<close> is its upper-case form), its attributes in source order, its
  inline style declarations (property, value, important), and the values the browser
  computes for it: \<^verbatim>\<open>innerText\<close>, the \<^verbatim>\<open>value\<close> property, the computed
  \<^verbatim>\<open>display\<close>, \<^verbatim>\<open>visibility\<close> and \<^verbatim>\<open>opacity\<close>, and the size of
  \<^verbatim>\<open>getBoundingClientRect()\<close>.

  Only an \<^verbatim>\<open>HTMLElement\<close> has \<^verbatim>\<open>innerText\<close> and \<^verbatim>\<open>click()\<close>: on any other
  element (an \<^verbatim>\<open>a\<close> inside an inline \<^verbatim>\<open>svg\<close>) the property is \<^verbatim>\<open>undefined\<close>, here
  \<open>None\<close>, there is no such method, and \<^verbatim>\<open>tagName\<close> is the local name as it stands. The \<^verbatim>\<open>value\<close> property is a string
  on a form control, a number on \<^verbatim>\<open>li\<close>, \<^verbatim>\<open>meter\<close> and \<^verbatim>\<open>progress\<close> (an integer
  here), and \<^verbatim>\<open>undefined\<close> elsewhere. Every other property and method the script reads
  is the one the DOM defines (a form whose controls are named like one of them, and so
  shadow it, is outside the model), and the document has a body.
\<close>

datatype property = Absent | StringValue string | NumberValue int

record element =
  ref :: nat
  localName :: string
  attributes :: "(string \<times> string) list"
  inlineStyle :: "(string \<times> string \<times> bool) list"
  innerText :: "string option"
  valueProp :: property
  cssDisplay :: string
  cssVisibility :: string
  cssOpacity :: string
  rectWidth :: rat
  rectHeight :: rat

datatype node = Text string | Element element "node list"

text \<open>
  An HTML document with its root element, the nodes before the body (the head), and the
  body element with its children.
\<close>

record document =
  title :: string
  url :: string
  html :: element
  head :: "node list"
  body :: element
  content :: "node list"

text \<open>An element together with its ancestors (nearest first) and its child nodes.\<close>

type_synonym located = "element \<times> element list \<times> node list"

fun subtree_elements :: "element list \<Rightarrow> node \<Rightarrow> located list" where
  "subtree_elements ancs (Text s) = []"
| "subtree_elements ancs (Element e cs) =
     (e, ancs, cs) # concat (map (subtree_elements (e # ancs)) cs)"

definition documentElement :: "document \<Rightarrow> node" where
  "documentElement d = Element (html d) (head d @ [Element (body d) (content d)])"

text \<open>Every element of the document, in document order.\<close>

definition all_elements :: "document \<Rightarrow> located list" where
  "all_elements d = subtree_elements [] (documentElement d)"

definition find_element :: "document \<Rightarrow> nat \<Rightarrow> located option" where
  "find_element d r = find (\<lambda>(e, ancs, cs). ref e = r) (all_elements d)"

text \<open>\<^verbatim>\<open>document.body.contains(el)\<close>: the body itself or one of its descendants.\<close>

definition body_contains :: "document \<Rightarrow> nat \<Rightarrow> bool" where
  "body_contains d r =
     (r \<in> set (map (\<lambda>(e, ancs, cs). ref e) (subtree_elements [html d] (Element (body d) (content d)))))"

definition getAttribute :: "element \<Rightarrow> string \<Rightarrow> string option" where
  "getAttribute e n = map_of (attributes e) n"

text \<open>\<^verbatim>\<open>el.getAttribute(n) || ''\<close>\<close>

definition attr :: "element \<Rightarrow> string \<Rightarrow> string" where
  "attr e n = or_empty (getAttribute e n)"

definition hasAttribute :: "element \<Rightarrow> string \<Rightarrow> bool" where
  "hasAttribute e n = (getAttribute e n \<noteq> None)"

definition html_element :: "element \<Rightarrow> bool" where
  "html_element e = (innerText e \<noteq> None)"

fun map_node :: "(element \<Rightarrow> element) \<Rightarrow> node \<Rightarrow> node" where
  "map_node f (Text s) = Text s"
| "map_node f (Element e cs) = Element (f e) (map (map_node f) cs)"

text \<open>A write to the element with the given identity, wherever it stands in the tree.\<close>

definition update_element :: "nat \<Rightarrow> (element \<Rightarrow> element) \<Rightarrow> document \<Rightarrow> document" where
  "update_element r f d =
     (let g = (\<lambda>e. if ref e = r then f e else e)
      in d\<lparr>html := g (html d), head := map (map_node g) (head d),
           body := g (body d), content := map (map_node g) (content d)\<rparr>)"

definition setAttribute :: "nat \<Rightarrow> string \<Rightarrow> string \<Rightarrow> document \<Rightarrow> document" where
  "setAttribute r n v d =
     update_element r (\<lambda>e. e\<lparr>attributes := AList.update n v (attributes e)\<rparr>) d"

fun textContent :: "node \<Rightarrow> string" where
  "textContent (Text s) = s"
| "textContent (Element e cs) = concat (map textContent cs)"

text \<open>
  \<^verbatim>\<open>element.classList\<close>: the tokens of the class attribute, split at ASCII white space,
  each token once.
\<close>

fun tokens :: "string \<Rightarrow> string \<Rightarrow> string list" where
  "tokens cur [] = (if cur = [] then [] else [cur])"
| "tokens cur (c # cs) =
     (if c \<in> set [CHR '' '', CHR 0x09, CHR 0x0A, CHR 0x0C, CHR 0x0D]
      then (if cur = [] then tokens [] cs else cur # tokens [] cs)
      else tokens (cur @ [c]) cs)"

fun uniq :: "string list \<Rightarrow> string list \<Rightarrow> string list" where
  "uniq seen [] = []"
| "uniq seen (x # xs) = (if x \<in> set seen then uniq seen xs else x # uniq (x # seen) xs)"

definition classList :: "element \<Rightarrow> string list" where
  "classList e = uniq [] (tokens [] (attr e ''class''))"

section \<open>The browser's selector engine\<close>

text \<open>
  \<^verbatim>\<open>document.querySelectorAll\<close> on the selectors the script builds at run time. The
  script writes four forms, by string interpolation: \<^verbatim>\<open>#id\<close>, \<^verbatim>\<open>tag[name="..."]\<close>
  (and \<^verbatim>\<open>label[for="..."]\<close>), \<^verbatim>\<open>tag.c1.c2.c3\<close> and \<^verbatim>\<open>[data-bb-id="..."]\<close>. The
  model parses a compound selector: an optional type selector in lower case, followed by
  id selectors, class selectors and quoted equality selectors on the attributes
  \<^verbatim>\<open>name\<close>, \<^verbatim>\<open>for\<close> and \<^verbatim>\<open>data-bb-id\<close>, over plain CSS identifiers (ASCII, no
  escapes) and quoted strings without quote, backslash or line break. Every string of
  this fragment is parsed and matched as a browser does for an HTML document in no-quirks
  mode. A string outside the fragment raises \<open>SyntaxError\<close> in the model, where a
  browser accepts some (an escape in a quoted string, a pseudo-class it knows, a selector
  list).

  The exceptions of the script: \<open>SyntaxError\<close> from the selector engine, and
  \<open>TypeError\<close> from a method call on a value that has no such method.
\<close>

datatype exception = SyntaxError | TypeError

datatype simple_selector = IdSel string | ClassSel string | AttrSel string string

datatype compound = Compound "string option" "simple_selector list"

definition ident_char :: "char \<Rightarrow> bool" where
  "ident_char c = (c \<in> set (word_chars @ ''-''))"

fun is_ident :: "string \<Rightarrow> bool" where
  "is_ident [] = False"
| "is_ident [c] = (c \<in> set (letters @ ''_''))"
| "is_ident (c # d # r) =
     ((c \<in> set (letters @ ''_'') \<or> (c = CHR ''-'' \<and> d \<in> set (letters @ ''_-'')))
      \<and> list_all ident_char (d # r))"

definition lower_case :: "string \<Rightarrow> bool" where
  "lower_case s = list_all (\<lambda>c. c \<notin> set ''ABCDEFGHIJKLMNOPQRSTUVWXYZ'') s"

definition plain_char :: "char \<Rightarrow> bool" where
  "plain_char c = (c \<notin> set [CHR 0x22, CHR 0x5C, CHR 0x0A, CHR 0x0C, CHR 0x0D])"

function parse_simples :: "string \<Rightarrow> simple_selector list option" where
  "parse_simples [] = Some []"
| "parse_simples (c # s) =
     (if c = CHR ''#'' \<or> c = CHR ''.'' then
        (if is_ident (takeWhile ident_char s)
         then map_option
                ((#) (if c = CHR ''#'' then IdSel (takeWhile ident_char s)
                      else ClassSel (takeWhile ident_char s)))
                (parse_simples (dropWhile ident_char s))
         else None)
      else if c = CHR ''['' then
        (if takeWhile ident_char s \<in> set [''name'', ''for'', ''data-bb-id'']
            \<and> startsWith (dropWhile ident_char s) [CHR ''='', CHR 0x22]
            \<and> startsWith (dropWhile plain_char (drop 2 (dropWhile ident_char s))) [CHR 0x22, CHR '']'']
         then map_option
                ((#) (AttrSel (takeWhile ident_char s)
                        (takeWhile plain_char (drop 2 (dropWhile ident_char s)))))
                (parse_simples (drop 2 (dropWhile plain_char (drop 2 (dropWhile ident_char s)))))
         else None)
      else None)"
  by pat_completeness auto

termination
proof (relation "measure length", goal_cases)
  case 1
  show ?case by simp
next
  case (2 c s)
  have "length (dropWhile ident_char s) \<le> length s"
    by (rule length_dropWhile_le)
  then show ?case by simp
next
  case (3 c s)
  have "length (dropWhile plain_char (drop 2 (dropWhile ident_char s)))
          \<le> length (drop 2 (dropWhile ident_char s))"
    by (rule length_dropWhile_le)
  moreover have "length (dropWhile ident_char s) \<le> length s"
    by (rule length_dropWhile_le)
  ultimately show ?case by simp
qed

declare parse_simples.simps [simp del]

definition parse_selector :: "string \<Rightarrow> compound option" where
  "parse_selector s =
     (if takeWhile ident_char s = [] then
        (case parse_simples s of
           Some (p # ps) \<Rightarrow> Some (Compound None (p # ps))
         | _ \<Rightarrow> None)
      else if is_ident (takeWhile ident_char s) \<and> lower_case (takeWhile ident_char s)
      then map_option (Compound (Some (takeWhile ident_char s)))
             (parse_simples (dropWhile ident_char s))
      else None)"

fun matches_simple :: "element \<Rightarrow> simple_selector \<Rightarrow> bool" where
  "matches_simple e (IdSel i) = (getAttribute e ''id'' = Some i)"
| "matches_simple e (ClassSel c) = (c \<in> set (classList e))"
| "matches_simple e (AttrSel a v) = (getAttribute e a = Some v)"

fun matches :: "compound \<Rightarrow> element \<Rightarrow> bool" where
  "matches (Compound t ps) e =
     ((case t of None \<Rightarrow> True | Some n \<Rightarrow> localName e = n) \<and> list_all (matches_simple e) ps)"

definition querySelectorAll :: "document \<Rightarrow> string \<Rightarrow> exception + located list" where
  "querySelectorAll d s =
     (case parse_selector s of
        None \<Rightarrow> Inl SyntaxError
      | Some c \<Rightarrow> Inr (filter (\<lambda>(e, ancs, cs). matches c e) (all_elements d)))"


section \<open>The engine's state\<close>

text \<open>
  The script's module-level variables, with the document they act on. A JavaScript
  \<^verbatim>\<open>Set\<close> and \<^verbatim>\<open>Map\<close> keep insertion order, so they are lists. \<open>pointer\<close> is
  the \<^verbatim>\<open>#bb-pointer\<close> node once it exists (the element it points at and its opacity);
  \<open>overlayDisplay\<close> is the \<^verbatim>\<open>display\<close> of the overlay node once it exists. \<open>trace\<close>
  records, in program order, the steps \<open>executeAction\<close> takes on the page: scrolling,
  awaited timers, the highlight steps, the pointer cue, focus, the native click, the
  write of the value and the dispatched events.

  The page is taken to be inert while a call runs: no page script, timer callback or
  other task changes the document between two steps of one call.
\<close>

datatype effect =
    ScrollBy nat
  | Await nat
  | ScrollIntoView nat
  | ClearAllHighlights
  | HighlightElement nat nat
  | MovePointerToElement nat
  | Click nat
  | Focus nat
  | SetValue nat string
  | DispatchEvent nat string

record engine =
  dom :: document
  clickedElements :: "string list"
  elementCache :: "(string \<times> nat) list"
  selectorCounter :: nat
  highlightedElements :: "(nat \<times> string \<times> string) list"
  currentHighlightedEl :: "nat option"
  highlightOverlayRAF :: "nat option"
  overlayDisplay :: "string option"
  pointer :: "(nat \<times> string) option"
  trace :: "effect list"

definition emit :: "effect \<Rightarrow> engine \<Rightarrow> engine" where
  "emit x st = st\<lparr>trace := trace st @ [x]\<rparr>"

section \<open>Visibility predicate\<close>

definition isVisible :: "element \<Rightarrow> bool" where
  "isVisible e =
     (cssDisplay e \<noteq> ''none'' \<and> cssVisibility e \<noteq> ''hidden'' \<and> cssOpacity e \<noteq> ''0''
      \<and> rectWidth e > 0 \<and> rectHeight e > 0)"

section \<open>Selector resolver and cache\<close>

text \<open>The test \<^verbatim>\<open>/^[a-zA-Z][\w-]*$/\<close> on \<^verbatim>\<open>element.id\<close>.\<close>

fun id_pattern :: "string \<Rightarrow> bool" where
  "id_pattern [] = False"
| "id_pattern (c # cs) = (c \<in> set letters \<and> list_all ident_char cs)"

text \<open>The test \<^verbatim>\<open>/^(hover|focus|active|selected|disabled)/\<close> on a class name.\<close>

definition transient_class :: "string \<Rightarrow> bool" where
  "transient_class c =
     list_ex (startsWith c) [''hover'', ''focus'', ''active'', ''selected'', ''disabled'']"

text \<open>
  \<^verbatim>\<open>try { if (document.querySelectorAll(selector).length === 1) return selector; } catch (e) {}\<close>
\<close>

definition matches_once :: "document \<Rightarrow> string \<Rightarrow> bool" where
  "matches_once d s =
     (case querySelectorAll d s of Inl ex \<Rightarrow> False | Inr ms \<Rightarrow> length ms = 1)"

definition id_selector :: "element \<Rightarrow> string option" where
  "id_selector el =
     (if attr el ''id'' \<noteq> [] \<and> id_pattern (attr el ''id'')
      then Some (''#'' @ attr el ''id'') else None)"

text \<open>
  The name form, for \<^verbatim>\<open>element.tagName === 'INPUT'\<close>, \<^verbatim>\<open>'TEXTAREA'\<close> or
  \<^verbatim>\<open>'SELECT'\<close>: the upper-case name is that of an HTML element.
\<close>

definition name_selector :: "element \<Rightarrow> string option" where
  \<open>name_selector el =
     (if html_element el
         \<and> (localName el = ''input'' \<or> localName el = ''textarea'' \<or> localName el = ''select'')
      then (case getAttribute el ''name'' of
              None \<Rightarrow> None
            | Some name \<Rightarrow>
                if name = [] then None
                else Some (localName el @ ''[name="'' @ name @ ''"]''))
      else None)\<close>

definition class_selector :: "element \<Rightarrow> string option" where
  "class_selector el =
     (let classes = filter (\<lambda>c. c \<noteq> [] \<and> \<not> transient_class c) (classList el)
      in if classes \<noteq> []
         then Some (localName el @ ''.'' @ join ''.'' (take 3 classes))
         else None)"

definition usable :: "document \<Rightarrow> string option \<Rightarrow> bool" where
  "usable d c = (case c of None \<Rightarrow> False | Some s \<Rightarrow> matches_once d s)"

definition generateSelector :: "element \<Rightarrow> engine \<Rightarrow> string \<times> engine" where
  \<open>generateSelector el st =
     (if usable (dom st) (id_selector el) then (the (id_selector el), st)
      else if usable (dom st) (name_selector el) then (the (name_selector el), st)
      else if usable (dom st) (class_selector el) then (the (class_selector el), st)
      else
        (let uniqueId = ''bb-'' @ decimal (selectorCounter st)
         in (''[data-bb-id="'' @ uniqueId @ ''"]'',
             st\<lparr>selectorCounter := selectorCounter st + 1,
                elementCache := AList.update uniqueId (ref el) (elementCache st),
                dom := setAttribute (ref el) ''data-bb-id'' uniqueId (dom st)\<rparr>)))\<close>

text \<open>
  The match \<^verbatim>\<open>selector.match(/\[data-bb-id="([^"]+)"\]/)\<close>: the first place where the
  literal prefix is followed by a non-empty run of characters other than the quote and
  then by \<^verbatim>\<open>"]\<close>; the result is the run.
\<close>

fun match_bb_id :: "string \<Rightarrow> string option" where
  \<open>match_bb_id [] = None\<close>
| \<open>match_bb_id (c # cs) =
     (if startsWith (c # cs) ''[data-bb-id="''
         \<and> takeWhile (\<lambda>x. x \<noteq> CHR 0x22) (drop 13 (c # cs)) \<noteq> []
         \<and> startsWith (dropWhile (\<lambda>x. x \<noteq> CHR 0x22) (drop 13 (c # cs))) ''"]''
      then Some (takeWhile (\<lambda>x. x \<noteq> CHR 0x22) (drop 13 (c # cs)))
      else match_bb_id cs)\<close>

definition cached_element :: "engine \<Rightarrow> string \<Rightarrow> nat option" where
  "cached_element st selector =
     (case match_bb_id selector of
        None \<Rightarrow> None
      | Some cachedId \<Rightarrow>
          (case map_of (elementCache st) cachedId of
             None \<Rightarrow> None
           | Some r \<Rightarrow> if body_contains (dom st) r then Some r else None))"

definition getElementBySelector :: "engine \<Rightarrow> string \<Rightarrow> nat option" where
  "getElementBySelector st selector =
     (case cached_element st selector of
        Some r \<Rightarrow> Some r
      | None \<Rightarrow>
          (case querySelectorAll (dom st) selector of
             Inl ex \<Rightarrow> None
           | Inr [] \<Rightarrow> None
           | Inr ((e, ancs, cs) # ms) \<Rightarrow> Some (ref e)))"

text \<open>
  \<open>markElementAsClicked\<close> generates the element's selector afresh and adds it to the
  memo. The element is read from the document by its identity (the script never removes
  a node, so it is found).
\<close>

definition set_add :: "string \<Rightarrow> string list \<Rightarrow> string list" where
  "set_add s xs = (if s \<in> set xs then xs else xs @ [s])"

definition markElementAsClicked :: "nat \<Rightarrow> engine \<Rightarrow> engine" where
  "markElementAsClicked r st =
     (case find_element (dom st) r of
        None \<Rightarrow> st
      | Some (el, ancs, cs) \<Rightarrow>
          (case generateSelector el st of
             (selector, st') \<Rightarrow> st'\<lparr>clickedElements := set_add selector (clickedElements st')\<rparr>))"


section \<open>Feature extractor\<close>

datatype feature_type = Link | Input | Button

definition type_name :: "feature_type \<Rightarrow> string" where
  "type_name t = (case t of Link \<Rightarrow> ''link'' | Input \<Rightarrow> ''input'' | Button \<Rightarrow> ''button'')"

record PageFeature =
  index :: nat
  ftype :: feature_type
  ftext :: string
  selector :: string
  href :: "string option"
  placeholder :: "string option"
  aria_label :: "string option"
  value_len :: "nat option"
  already_clicked :: bool

record ContentResponse =
  success :: bool
  message :: "string option"
  error :: "string option"
  pageTitle :: "string option"
  pageUrl :: "string option"
  features :: "PageFeature list option"

subsection \<open>The fixed candidate queries\<close>

text \<open>
  The candidate lists are \<^verbatim>\<open>document.querySelectorAll\<close> on five fixed selector lists;
  each is the filter of the document's elements, in document order, by the predicate the
  selector list denotes. A descendant combinator reads the ancestors. Attribute values
  are compared as written (for \<^verbatim>\<open>type\<close> a browser ignores the case; pages are taken
  to write it in lower case).
\<close>

definition has_class :: "string \<Rightarrow> element \<Rightarrow> bool" where
  "has_class c e = (c \<in> set (classList e))"

text \<open>\<^verbatim>\<open>[n*="s"]\<close> for a non-empty \<open>s\<close>.\<close>

definition attr_contains :: "string \<Rightarrow> string \<Rightarrow> element \<Rightarrow> bool" where
  "attr_contains n s e = (case getAttribute e n of None \<Rightarrow> False | Some v \<Rightarrow> str_includes v s)"

definition refs :: "located list \<Rightarrow> nat list" where
  "refs ls = map (\<lambda>(e, ancs, cs). ref e) ls"

text \<open>
  \<^verbatim>\<open>.product-card a, .product-item a, .product a, [class*="product"] a, [class*="item"] a,
  [class*="card"] a, article a, [data-product] a, [data-product-handle] a\<close>
\<close>

definition product_container :: "element \<Rightarrow> bool" where
  "product_container x =
     (has_class ''product-card'' x \<or> has_class ''product-item'' x \<or> has_class ''product'' x
      \<or> attr_contains ''class'' ''product'' x \<or> attr_contains ''class'' ''item'' x
      \<or> attr_contains ''class'' ''card'' x \<or> localName x = ''article''
      \<or> hasAttribute x ''data-product'' \<or> hasAttribute x ''data-product-handle'')"

definition productLinks :: "document \<Rightarrow> nat list" where
  "productLinks d =
     refs (filter (\<lambda>(e, ancs, cs). localName e = ''a'' \<and> list_ex product_container ancs)
       (all_elements d))"

text \<open>\<^verbatim>\<open>header, footer, nav, [role="navigation"]\<close>\<close>

definition navigation_region :: "element \<Rightarrow> bool" where
  "navigation_region x =
     (localName x = ''header'' \<or> localName x = ''footer'' \<or> localName x = ''nav''
      \<or> getAttribute x ''role'' = Some ''navigation'')"

text \<open>\<^verbatim>\<open>a[href]:not(header a):not(footer a):not(nav a):not([role="navigation"] a)\<close>\<close>

definition otherLinks :: "document \<Rightarrow> nat list" where
  "otherLinks d =
     refs (filter (\<lambda>(e, ancs, cs). localName e = ''a'' \<and> hasAttribute e ''href''
                      \<and> \<not> list_ex navigation_region ancs)
       (all_elements d))"

text \<open>
  \<^verbatim>\<open>input:not([type="hidden"]):not([type="button"]):not([type="submit"]), textarea, select\<close>
\<close>

definition inputs :: "document \<Rightarrow> nat list" where
  "inputs d =
     refs (filter (\<lambda>(e, ancs, cs).
                (localName e = ''input'' \<and> getAttribute e ''type'' \<noteq> Some ''hidden''
                   \<and> getAttribute e ''type'' \<noteq> Some ''button''
                   \<and> getAttribute e ''type'' \<noteq> Some ''submit'')
                \<or> localName e = ''textarea'' \<or> localName e = ''select'')
       (all_elements d))"

text \<open>
  \<^verbatim>\<open>.add-to-cart, .addtocart, [class*="add-to-cart"], [class*="AddToCart"],
  [id*="add-to-cart"], [id*="AddToCart"], [name*="add"], button[name="add"],
  button[type="submit"], form[action*="cart"] button, product-form button\<close>
\<close>

definition actionButtons :: "document \<Rightarrow> nat list" where
  "actionButtons d =
     refs (filter (\<lambda>(e, ancs, cs).
                has_class ''add-to-cart'' e \<or> has_class ''addtocart'' e
                \<or> attr_contains ''class'' ''add-to-cart'' e \<or> attr_contains ''class'' ''AddToCart'' e
                \<or> attr_contains ''id'' ''add-to-cart'' e \<or> attr_contains ''id'' ''AddToCart'' e
                \<or> attr_contains ''name'' ''add'' e
                \<or> (localName e = ''button'' \<and> getAttribute e ''name'' = Some ''add'')
                \<or> (localName e = ''button'' \<and> getAttribute e ''type'' = Some ''submit'')
                \<or> (localName e = ''button''
                     \<and> list_ex (\<lambda>x. localName x = ''form'' \<and> attr_contains ''action'' ''cart'' x) ancs)
                \<or> (localName e = ''button'' \<and> list_ex (\<lambda>x. localName x = ''product-form'') ancs))
       (all_elements d))"

text \<open>\<^verbatim>\<open>button, input[type="button"], input[type="submit"], [role="button"]\<close>\<close>

definition otherButtons :: "document \<Rightarrow> nat list" where
  "otherButtons d =
     refs (filter (\<lambda>(e, ancs, cs).
                localName e = ''button''
                \<or> (localName e = ''input'' \<and> getAttribute e ''type'' = Some ''button'')
                \<or> (localName e = ''input'' \<and> getAttribute e ''type'' = Some ''submit'')
                \<or> getAttribute e ''role'' = Some ''button'')
       (all_elements d))"

subsection \<open>Labels\<close>

text \<open>
  \<open>findLabelFor\<close>: the label whose \<^verbatim>\<open>for\<close> is the input's id, else the wrapping label
  (its text without the first occurrence of the input's value), else the element named by
  \<^verbatim>\<open>aria-labelledby\<close>. The first lookup is \<^verbatim>\<open>document.querySelector\<close> on an interpolated
  selector, outside any \<^verbatim>\<open>try\<close>: an invalid selector raises.
\<close>

definition getElementById :: "document \<Rightarrow> string \<Rightarrow> located option" where
  "getElementById d i = find (\<lambda>(e, ancs, cs). getAttribute e ''id'' = Some i) (all_elements d)"

definition wrapping_label :: "document \<Rightarrow> element \<Rightarrow> element list \<Rightarrow> located option" where
  "wrapping_label d el ancs =
     (case find (\<lambda>x. localName x = ''label'') (el # ancs) of
        None \<Rightarrow> None
      | Some l \<Rightarrow> find_element d (ref l))"

definition labelled_by :: "document \<Rightarrow> element \<Rightarrow> string" where
  "labelled_by d el =
     (if attr el ''aria-labelledby'' = [] then []
      else (case getElementById d (attr el ''aria-labelledby'') of
              None \<Rightarrow> []
            | Some (l, lancs, lcs) \<Rightarrow> trim (textContent (Element l lcs))))"

text \<open>
  \<^verbatim>\<open>input.value || ''\<close> as the pattern of \<^verbatim>\<open>text.replace\<close>, which converts a number
  to its decimal string.
\<close>

definition value_pattern :: "property \<Rightarrow> string" where
  "value_pattern v =
     (case v of
        Absent \<Rightarrow> []
      | StringValue s \<Rightarrow> s
      | NumberValue n \<Rightarrow> if n = 0 then [] else decimal_int n)"

definition wrapped_or_labelled :: "document \<Rightarrow> element \<Rightarrow> element list \<Rightarrow> string" where
  "wrapped_or_labelled d el ancs =
     (case wrapping_label d el ancs of
        Some (l, lancs, lcs) \<Rightarrow>
          trim (remove_first (trim (textContent (Element l lcs))) (value_pattern (valueProp el)))
      | None \<Rightarrow> labelled_by d el)"

definition findLabelFor :: "document \<Rightarrow> element \<Rightarrow> element list \<Rightarrow> exception + string" where
  \<open>findLabelFor d el ancs =
     (if attr el ''id'' = [] then Inr (wrapped_or_labelled d el ancs)
      else (case querySelectorAll d (''label[for="'' @ attr el ''id'' @ ''"]'') of
              Inl ex \<Rightarrow> Inl ex
            | Inr [] \<Rightarrow> Inr (wrapped_or_labelled d el ancs)
            | Inr ((l, lancs, lcs) # ms) \<Rightarrow> Inr (trim (textContent (Element l lcs)))))\<close>

subsection \<open>Links\<close>

text \<open>
  One iteration of the link loop below its budget test: the feature pushed, if any, the
  hrefs seen and the state. The product and other counters only feed the log and are left
  out. The text is read with \<^verbatim>\<open>el.innerText.trim()\<close>, outside any \<^verbatim>\<open>try\<close>: on a
  link without \<^verbatim>\<open>innerText\<close> the call raises \<open>TypeError\<close>.
\<close>

definition link_step ::
  "nat \<Rightarrow> string list \<Rightarrow> nat \<Rightarrow> engine
     \<Rightarrow> exception + PageFeature option \<times> string list \<times> engine" where
  "link_step r seenUrls idx st =
     (case find_element (dom st) r of
        None \<Rightarrow> Inr (None, seenUrls, st)
      | Some (el, ancs, cs) \<Rightarrow>
          if attr el ''href'' = [] \<or> startsWith (attr el ''href'') ''javascript:''
             \<or> attr el ''href'' = ''#''
          then Inr (None, seenUrls, st)
          else if list_ex navigation_region (el # ancs) then Inr (None, seenUrls, st)
          else if attr el ''href'' \<in> set seenUrls then Inr (None, seenUrls, st)
          else if \<not> isVisible el then Inr (None, attr el ''href'' # seenUrls, st)
          else
            (case innerText el of
               None \<Rightarrow> Inl TypeError
             | Some inner \<Rightarrow>
                 if or_else (trim inner) (trim (textContent (Element el cs))) = []
                    \<and> attr el ''aria-label'' = []
                 then Inr (None, attr el ''href'' # seenUrls, st)
                 else if startsWith (attr el ''href'') ''#''
                         \<and> \<not> str_includes (attr el ''href'') ''MainContent''
                 then Inr (None, attr el ''href'' # seenUrls, st)
                 else
                   (case generateSelector el st of
                      (sel, st') \<Rightarrow>
                        Inr (Some \<lparr>index = idx, ftype = Link,
                                   ftext = take 100 (or_else
                                             (or_else (trim inner) (trim (textContent (Element el cs))))
                                             (attr el ''aria-label'')),
                                   selector = sel,
                                   href = truthy (attr el ''href''),
                                   placeholder = None,
                                   aria_label = truthy (attr el ''aria-label''),
                                   value_len = None,
                                   already_clicked = (sel \<in> set (clickedElements st'))\<rparr>,
                             attr el ''href'' # seenUrls, st'))))"

text \<open>
  The link loop. An exception leaves the loop (and the extraction) with the state as it
  is then; so it is in the two loops that follow.
\<close>

fun collect_links ::
  "nat list \<Rightarrow> PageFeature list \<Rightarrow> string list \<Rightarrow> nat \<Rightarrow> engine
     \<Rightarrow> (exception + PageFeature list \<times> nat) \<times> engine" where
  "collect_links [] fs seenUrls idx st = (Inr (fs, idx), st)"
| "collect_links (r # rs) fs seenUrls idx st =
     (if length fs \<ge> 60 then (Inr (fs, idx), st)
      else (case link_step r seenUrls idx st of
              Inl ex \<Rightarrow> (Inl ex, st)
            | Inr (None, seen', st') \<Rightarrow> collect_links rs fs seen' idx st'
            | Inr (Some f, seen', st') \<Rightarrow> collect_links rs (fs @ [f]) seen' (idx + 1) st'))"

subsection \<open>Inputs\<close>

definition input_step :: "nat \<Rightarrow> nat \<Rightarrow> engine \<Rightarrow> exception + PageFeature option \<times> engine" where
  "input_step r idx st =
     (case find_element (dom st) r of
        None \<Rightarrow> Inr (None, st)
      | Some (el, ancs, cs) \<Rightarrow>
          if \<not> isVisible el then Inr (None, st)
          else
            (case findLabelFor (dom st) el ancs of
               Inl ex \<Rightarrow> Inl ex
             | Inr label \<Rightarrow>
                 (case generateSelector el st of
                    (sel, st') \<Rightarrow>
                      Inr (Some \<lparr>index = idx, ftype = Input,
                                 ftext = or_else label (or_else (attr el ''name'')
                                           (or_else (attr el ''placeholder'')
                                              (or_else (attr el ''type'') ''text''))),
                                 selector = sel,
                                 href = None,
                                 placeholder = truthy (attr el ''placeholder''),
                                 aria_label = truthy (or_else (attr el ''aria-label'') label),
                                 value_len = Some (case valueProp el of
                                                     StringValue v \<Rightarrow> length v
                                                   | _ \<Rightarrow> 0),
                                 already_clicked = (sel \<in> set (clickedElements st'))\<rparr>,
                           st'))))"

fun collect_inputs ::
  "nat list \<Rightarrow> PageFeature list \<Rightarrow> nat \<Rightarrow> engine
     \<Rightarrow> (exception + PageFeature list \<times> nat) \<times> engine" where
  "collect_inputs [] fs idx st = (Inr (fs, idx), st)"
| "collect_inputs (r # rs) fs idx st =
     (if length fs \<ge> 75 then (Inr (fs, idx), st)
      else (case input_step r idx st of
              Inl ex \<Rightarrow> (Inl ex, st)
            | Inr (None, st') \<Rightarrow> collect_inputs rs fs idx st'
            | Inr (Some f, st') \<Rightarrow> collect_inputs rs (fs @ [f]) (idx + 1) st'))"

subsection \<open>Buttons\<close>

text \<open>
  The text of a button is read from a clone whose \<^verbatim>\<open>style\<close>, \<^verbatim>\<open>script\<close> and
  \<^verbatim>\<open>svg\<close> descendants are removed.
\<close>

fun stripped_text :: "node \<Rightarrow> string" where
  "stripped_text (Text s) = s"
| "stripped_text (Element e cs) =
     (if localName e = ''style'' \<or> localName e = ''script'' \<or> localName e = ''svg'' then []
      else concat (map stripped_text cs))"

definition clean_text :: "node list \<Rightarrow> string" where
  "clean_text cs = concat (map stripped_text cs)"

text \<open>
  \<^verbatim>\<open>text = clone.textContent?.trim() || el.value || ''\<close>, and the first use of the
  text, \<^verbatim>\<open>text.includes('.cls-')\<close>, outside any \<^verbatim>\<open>try\<close>: when the clone has no text
  and the value is a number other than 0, the text is that number and the call raises
  \<open>TypeError\<close>. Nothing between the two has an effect.
\<close>

definition button_text :: "element \<Rightarrow> node list \<Rightarrow> exception + string" where
  "button_text el cs =
     (if trim (clean_text cs) \<noteq> [] then Inr (trim (clean_text cs))
      else (case valueProp el of
              Absent \<Rightarrow> Inr []
            | StringValue s \<Rightarrow> Inr s
            | NumberValue n \<Rightarrow> if n = 0 then Inr [] else Inl TypeError))"

definition css_like :: "string \<Rightarrow> bool" where
  "css_like t =
     (str_includes t ''.cls-'' \<or> str_includes t ''{'' \<or> str_includes t ''fill:''
      \<or> str_includes t ''stroke:'')"

definition button_step ::
  "nat \<Rightarrow> nat list \<Rightarrow> string list \<Rightarrow> nat \<Rightarrow> engine
     \<Rightarrow> exception + PageFeature option \<times> string list \<times> engine" where
  "button_step r actions seenButtonSelectors idx st =
     (case find_element (dom st) r of
        None \<Rightarrow> Inr (None, seenButtonSelectors, st)
      | Some (el, ancs, cs) \<Rightarrow>
          if r \<notin> set actions \<and> \<not> isVisible el then Inr (None, seenButtonSelectors, st)
          else if r \<in> set actions \<and> \<not> (rectWidth el > 0 \<or> rectHeight el > 0)
                  \<and> \<not> body_contains (dom st) r
          then Inr (None, seenButtonSelectors, st)
          else
            (case button_text el cs of
               Inl ex \<Rightarrow> Inl ex
             | Inr caption \<Rightarrow>
                 if css_like caption then Inr (None, seenButtonSelectors, st)
                 else if caption = [] \<and> attr el ''aria-label'' = [] \<and> attr el ''name'' = []
                 then Inr (None, seenButtonSelectors, st)
                 else
                   (case generateSelector el st of
                      (sel, st') \<Rightarrow>
                        if sel \<in> set seenButtonSelectors then Inr (None, seenButtonSelectors, st')
                        else
                          Inr (Some \<lparr>index = idx, ftype = Button,
                                     ftext = take 100 (or_else caption
                                               (or_else (attr el ''aria-label'') (attr el ''name''))),
                                     selector = sel,
                                     href = None,
                                     placeholder = None,
                                     aria_label = truthy (attr el ''aria-label''),
                                     value_len = None,
                                     already_clicked = (sel \<in> set (clickedElements st'))\<rparr>,
                               sel # seenButtonSelectors, st'))))"

fun collect_buttons ::
  "nat list \<Rightarrow> nat list \<Rightarrow> PageFeature list \<Rightarrow> string list \<Rightarrow> nat \<Rightarrow> engine
     \<Rightarrow> (exception + PageFeature list \<times> nat) \<times> engine" where
  "collect_buttons [] actions fs seen idx st = (Inr (fs, idx), st)"
| "collect_buttons (r # rs) actions fs seen idx st =
     (if length fs \<ge> 75 then (Inr (fs, idx), st)
      else (case button_step r actions seen idx st of
              Inl ex \<Rightarrow> (Inl ex, st)
            | Inr (None, seen', st') \<Rightarrow> collect_buttons rs actions fs seen' idx st'
            | Inr (Some f, seen', st') \<Rightarrow>
                collect_buttons rs actions (fs @ [f]) seen' (idx + 1) st'))"

subsection \<open>Assembly\<close>

definition feature_key :: "PageFeature \<Rightarrow> string" where
  "feature_key f = type_name (ftype f) @ '':'' @ ftext f @ '':'' @ or_empty (href f)"

fun dedupe :: "string list \<Rightarrow> PageFeature list \<Rightarrow> PageFeature list" where
  "dedupe seen [] = []"
| "dedupe seen (f # fs) =
     (if feature_key f \<in> set seen then dedupe seen fs
      else f # dedupe (feature_key f # seen) fs)"

definition reindex :: "PageFeature list \<Rightarrow> PageFeature list" where
  "reindex fs = map (\<lambda>(i, f). f\<lparr>index := i\<rparr>) (enumerate 0 fs)"

definition extraction_result :: "document \<Rightarrow> PageFeature list \<Rightarrow> ContentResponse" where
  "extraction_result d uniqueFeatures =
     \<lparr>success = True,
      message = Some (''Found '' @ decimal (length uniqueFeatures) @ '' interactive elements''),
      error = None,
      pageTitle = Some (title d),
      pageUrl = Some (url d),
      features = Some uniqueFeatures\<rparr>"

definition extractPageFeatures :: "engine \<Rightarrow> (exception + ContentResponse) \<times> engine" where
  "extractPageFeatures st =
     (case collect_links (productLinks (dom st) @ otherLinks (dom st)) [] [] 0 st of
        (Inl ex, st1) \<Rightarrow> (Inl ex, st1)
      | (Inr (linkFeatures, idx1), st1) \<Rightarrow>
          (case collect_inputs (inputs (dom st1)) [] idx1 st1 of
             (Inl ex, st2) \<Rightarrow> (Inl ex, st2)
           | (Inr (inputFeatures, idx2), st2) \<Rightarrow>
               (case collect_buttons (actionButtons (dom st2) @ otherButtons (dom st2))
                       (actionButtons (dom st2)) [] [] idx2 st2 of
                  (Inl ex, st3) \<Rightarrow> (Inl ex, st3)
                | (Inr (buttonFeatures, idx3), st3) \<Rightarrow>
                    (Inr (extraction_result (dom st)
                            (reindex (dedupe [] (linkFeatures @ inputFeatures @ buttonFeatures)))),
                     st3))))"

section \<open>Highlight subsystem\<close>

definition style_value :: "element \<Rightarrow> string \<Rightarrow> string" where
  "style_value e p = (case map_of (inlineStyle e) p of None \<Rightarrow> [] | Some (v, important) \<Rightarrow> v)"

text \<open>\<^verbatim>\<open>element.style.p = v\<close>: the empty string removes the declaration.\<close>

definition assign_style :: "string \<Rightarrow> string \<Rightarrow> element \<Rightarrow> element" where
  "assign_style p v e =
     e\<lparr>inlineStyle := (if v = [] then AList.delete p (inlineStyle e)
                        else AList.update p (v, False) (inlineStyle e))\<rparr>"

text \<open>\<^verbatim>\<open>element.style.setProperty(p, v, 'important')\<close>\<close>

definition setProperty :: "string \<Rightarrow> string \<Rightarrow> element \<Rightarrow> element" where
  "setProperty p v e = e\<lparr>inlineStyle := AList.update p (v, True) (inlineStyle e)\<rparr>"

fun restore_styles :: "(nat \<times> string \<times> string) list \<Rightarrow> document \<Rightarrow> document" where
  "restore_styles [] d = d"
| "restore_styles ((r, outline, boxShadow) # hs) d =
     restore_styles hs
       (update_element r (\<lambda>e. assign_style ''box-shadow'' boxShadow (assign_style ''outline'' outline e)) d)"

definition clearAllHighlights :: "engine \<Rightarrow> engine" where
  "clearAllHighlights st =
     st\<lparr>dom := restore_styles (highlightedElements st) (dom st),
        highlightedElements := [],
        highlightOverlayRAF := None,
        currentHighlightedEl := None,
        overlayDisplay := map_option (\<lambda>x. ''none'') (overlayDisplay st),
        pointer := map_option (\<lambda>(target, opacity). (target, ''0'')) (pointer st)\<rparr>"

text \<open>
  \<open>highlightElement\<close> remembers the element's inline outline and box shadow the first
  time and forces the red outline. The element is read from the document by its
  identity. The restoring timer it sets for a positive duration fires after the call and
  is not part of the state.
\<close>

definition highlightElement :: "nat \<Rightarrow> nat \<Rightarrow> engine \<Rightarrow> engine" where
  "highlightElement r duration st =
     (case find_element (dom st) r of
        None \<Rightarrow> st
      | Some (el, ancs, cs) \<Rightarrow>
          st\<lparr>highlightedElements :=
               (if r \<in> set (map fst (highlightedElements st)) then highlightedElements st
                else highlightedElements st @ [(r, style_value el ''outline'', style_value el ''box-shadow'')]),
             dom := update_element r
                      (\<lambda>e. setProperty ''box-shadow'' ''0 0 0 4px rgba(255, 0, 0, 0.35)''
                              (setProperty ''outline-offset'' ''2px''
                                 (setProperty ''outline'' ''3px solid #ff0000'' e)))
                      (dom st)\<rparr>)"

text \<open>
  \<open>movePointerToElement\<close> creates the pointer node when there is none, places it at the
  element's rectangle and shows it; its fading timer fires after 2500 ms.
\<close>

definition movePointerToElement :: "nat \<Rightarrow> engine \<Rightarrow> engine" where
  "movePointerToElement r st = st\<lparr>pointer := Some (r, ''1'')\<rparr>"

section \<open>Action executor\<close>

text \<open>
  The payload arrives as a message: \<open>targetIndex\<close> may be missing (\<open>Undefined\<close>),
  \<^verbatim>\<open>null\<close> or a number (an integer here); \<open>textInput\<close> may be missing.
\<close>

datatype target = Undefined | Null | Number int

record payload =
  action :: string
  targetIndex :: target
  textInput :: "string option"

definition show_target :: "target \<Rightarrow> string" where
  "show_target t =
     (case t of Undefined \<Rightarrow> ''undefined'' | Null \<Rightarrow> ''null'' | Number i \<Rightarrow> decimal_int i)"

definition succeeded :: "string \<Rightarrow> ContentResponse" where
  "succeeded msg =
     \<lparr>success = True, message = Some msg, error = None, pageTitle = None, pageUrl = None,
      features = None\<rparr>"

definition failed :: "string \<Rightarrow> ContentResponse" where
  "failed msg =
     \<lparr>success = False, message = None, error = Some msg, pageTitle = None, pageUrl = None,
      features = None\<rparr>"

definition find_feature :: "target \<Rightarrow> ContentResponse \<Rightarrow> PageFeature option" where
  "find_feature t resp =
     (case features resp of
        None \<Rightarrow> None
      | Some fs \<Rightarrow> find (\<lambda>f. t = Number (int (index f))) fs)"

text \<open>\<^verbatim>\<open>inputEl.value = textInput\<close>, as a text control takes it.\<close>

definition set_value :: "nat \<Rightarrow> string \<Rightarrow> engine \<Rightarrow> engine" where
  "set_value r v st =
     st\<lparr>dom := update_element r (\<lambda>e. e\<lparr>valueProp := StringValue v\<rparr>) (dom st)\<rparr>"

text \<open>
  \<^verbatim>\<open>element.click()\<close> on the resolved element, read from the document by its identity:
  on an element without the method the call raises \<open>TypeError\<close>.
\<close>

definition has_click :: "document \<Rightarrow> nat \<Rightarrow> bool" where
  "has_click d r =
     (case find_element d r of None \<Rightarrow> True | Some (el, ancs, cs) \<Rightarrow> html_element el)"

text \<open>The steps after the 500 ms pause, on the resolved element.\<close>

definition perform ::
  "payload \<Rightarrow> PageFeature \<Rightarrow> nat \<Rightarrow> engine \<Rightarrow> (exception + ContentResponse) \<times> engine" where
  \<open>perform p feature r st =
     (if action p = ''CLICK'' then
        (let st1 = movePointerToElement r (emit (MovePointerToElement r) st);
             st2 = emit (Await 800) st1
         in if \<not> has_click (dom st2) r then (Inl TypeError, st2)
            else
              (let st3 = emit (Click r) st2;
                   st4 = markElementAsClicked r st3
               in (Inr (succeeded (''Clicked: '' @ ftext feature)), st4)))
      else if action p = ''TYPE'' then
        (if or_empty (textInput p) = [] then (Inr (failed ''No text to type''), st)
         else
           (let st1 = emit (Focus r) st;
                st2 = set_value r (or_empty (textInput p))
                        (emit (SetValue r (or_empty (textInput p))) st1);
                st3 = emit (DispatchEvent r ''input'') st2;
                st4 = emit (DispatchEvent r ''change'') st3
            in (Inr (succeeded (''Typed "'' @ or_empty (textInput p) @ ''" into '' @ ftext feature)),
                st4)))
      else (Inr (failed (''Unknown action: '' @ action p)), st))\<close>

text \<open>
  \<open>executeAction\<close> is an \<^verbatim>\<open>async\<close> function: \<open>Inl\<close> is its promise rejected. Each
  \<^verbatim>\<open>await\<close> of a timer is one \<open>Await\<close> in the trace.
\<close>

definition executeAction :: "payload \<Rightarrow> engine \<Rightarrow> (exception + ContentResponse) \<times> engine" where
  "executeAction p st =
     (if action p = ''SCROLL'' then (Inr (succeeded ''Scrolled down''), emit (ScrollBy 300) st)
      else if action p = ''WAIT'' then (Inr (succeeded ''Waited 1 second''), emit (Await 1000) st)
      else if targetIndex p = Null then (Inr (failed ''No target element specified''), st)
      else
        (case extractPageFeatures st of
           (Inl ex, st1) \<Rightarrow> (Inl ex, st1)
         | (Inr resp, st1) \<Rightarrow>
             (case find_feature (targetIndex p) resp of
                None \<Rightarrow>
                  (Inr (failed (''Element with index '' @ show_target (targetIndex p) @ '' not found'')),
                   st1)
              | Some feature \<Rightarrow>
                  (case getElementBySelector st1 (selector feature) of
                     None \<Rightarrow> (Inr (failed (''Could not find element: '' @ selector feature)), st1)
                   | Some r \<Rightarrow>
                       (let st2 = clearAllHighlights (emit ClearAllHighlights st1);
                            st3 = emit (ScrollIntoView r) st2;
                            st4 = highlightElement r 5000 (emit (HighlightElement r 5000) st3);
                            st5 = emit (Await 500) st4
                        in perform p feature r st5)))))"

section \<open>Event waiter\<close>

text \<open>
  The promise \<open>waitForEvent\<close> returns for a resolved element: the \<^verbatim>\<open>done\<close> flag, the
  listeners registered on the element (event type and handler), whether the timeout is
  still pending, and every call of \<^verbatim>\<open>resolve\<close> in order. What happens afterwards is a
  sequence of occurrences: an event of some type reaching the element, or the timer
  firing.
\<close>

datatype handler = OnClick | OnInput

record waiter =
  awaited :: string
  done_flag :: bool
  listeners :: "(string \<times> handler) list"
  timer :: bool
  resolutions :: "ContentResponse list"

datatype occurrence = Dispatched string | TimerFired

definition finish :: "bool \<Rightarrow> string \<Rightarrow> waiter \<Rightarrow> waiter" where
  "finish ok msg w =
     (if done_flag w then w
      else w\<lparr>done_flag := True,
             listeners := removeAll (''change'', OnInput)
                            (removeAll (''input'', OnInput)
                               (removeAll (''click'', OnClick) (listeners w))),
             resolutions := resolutions w @ [if ok then succeeded msg else failed msg]\<rparr>)"

definition run_handler :: "handler \<Rightarrow> waiter \<Rightarrow> waiter" where
  "run_handler h w =
     (case h of OnClick \<Rightarrow> finish True ''Detected click'' w
              | OnInput \<Rightarrow> finish True ''Detected input'' w)"

text \<open>The executor of the promise: registers the listeners and sets the timer.\<close>

definition waitForEvent_start :: "string \<Rightarrow> waiter" where
  "waitForEvent_start event =
     (let w = \<lparr>awaited = event, done_flag = False, listeners = [], timer = False, resolutions = []\<rparr>
      in if event = ''click'' then w\<lparr>listeners := [(''click'', OnClick)], timer := True\<rparr>
         else if event = ''input''
         then w\<lparr>listeners := [(''input'', OnInput), (''change'', OnInput)], timer := True\<rparr>
         else finish False (''Unknown event: '' @ event) w)"

text \<open>
  An event runs the handlers registered for its type when it arrives, each only if it is
  still registered at its turn; the timer runs its callback once.
\<close>

fun run_handlers :: "string \<Rightarrow> handler list \<Rightarrow> waiter \<Rightarrow> waiter" where
  "run_handlers t [] w = w"
| "run_handlers t (h # hs) w =
     run_handlers t hs (if (t, h) \<in> set (listeners w) then run_handler h w else w)"

definition deliver :: "occurrence \<Rightarrow> waiter \<Rightarrow> waiter" where
  "deliver x w =
     (case x of
        Dispatched t \<Rightarrow> run_handlers t (map snd (filter (\<lambda>(t', h). t' = t) (listeners w))) w
      | TimerFired \<Rightarrow>
          if timer w then finish False (''Timed out waiting for '' @ awaited w) (w\<lparr>timer := False\<rparr>)
          else w)"

fun run :: "occurrence list \<Rightarrow> waiter \<Rightarrow> waiter" where
  "run [] w = w"
| "run (x # xs) w = run xs (deliver x w)"

section \<open>Example pages\<close>

text \<open>
  A displayed HTML element of 100 by 20 pixels (its \<^verbatim>\<open>innerText\<close> given as empty, so
  that a label comes from \<^verbatim>\<open>textContent\<close>), and a page with the given body content.
\<close>

definition shown :: "nat \<Rightarrow> string \<Rightarrow> (string \<times> string) list \<Rightarrow> element" where
  "shown r n as =
     \<lparr>ref = r, localName = n, attributes = as, inlineStyle = [], innerText = Some [],
      valueProp = Absent, cssDisplay = ''block'', cssVisibility = ''visible'', cssOpacity = ''1'',
      rectWidth = 100, rectHeight = 20\<rparr>"

definition page :: "node list \<Rightarrow> document" where
  "page ns =
     \<lparr>title = ''Shop'', url = ''https://shop.example/'', html = shown 0 ''html'' [],
      head = [], body = shown 1 ''body'' [], content = ns\<rparr>"

text \<open>The engine as the script leaves it when it is loaded.\<close>

definition loaded :: "document \<Rightarrow> engine" where
  "loaded d =
     \<lparr>dom = d, clickedElements = [], elementCache = [], selectorCounter = 0,
      highlightedElements = [], currentHighlightedEl = None, highlightOverlayRAF = None,
      overlayDisplay = None, pointer = None, trace = []\<rparr>"

text \<open>
  \<^verbatim>\<open><button class="a.b">First</button><button class="a b">Second</button>\<close>
\<close>

definition dotted_class_page :: document where
  "dotted_class_page =
     page [Element (shown 2 ''button'' [(''class'', ''a.b'')]) [Text ''First''],
           Element (shown 3 ''button'' [(''class'', ''a b'')]) [Text ''Second'']]"

text \<open>\<^verbatim>\<open><button>Go</button>\<close>, with the attributes given.\<close>

definition lone_button :: "(string \<times> string) list \<Rightarrow> document" where
  "lone_button as = page [Element (shown 2 ''button'' as) [Text ''Go'']]"

text \<open>\<^verbatim>\<open><input id='a"b'>\<close>\<close>

definition quoted_id_page :: document where
  \<open>quoted_id_page = page [Element (shown 2 ''input'' [(''id'', ''a"b'')]) []]\<close>

text \<open>An input whose name has 101 characters.\<close>

definition long_name_page :: document where
  "long_name_page = page [Element (shown 2 ''input'' [(''name'', replicate 101 CHR ''n'')]) []]"


definition click_payload :: "target \<Rightarrow> payload" where
  "click_payload t = \<lparr>action = ''CLICK'', targetIndex = t, textInput = None\<rparr>"



text \<open>
  \<^verbatim>\<open><article><a href="/p/1">Shoe</a></article><input name="q">
  <button class="add-to-cart">Add</button><button>Add</button>\<close>
\<close>

definition shop_page :: document where
  "shop_page =
     page [Element (shown 2 ''article'' []) [Element (shown 3 ''a'' [(''href'', ''/p/1'')]) [Text ''Shoe'']],
           Element (shown 4 ''input'' [(''name'', ''q'')]) [],
           Element (shown 5 ''button'' [(''class'', ''add-to-cart'')]) [Text ''Add''],
           Element (shown 6 ''button'' []) [Text ''Add'']]"


text \<open>
  \<^verbatim>\<open><svg><a href="/p/1"><text>Shoe</text></a></svg>\<close>: the elements inside the
  \<^verbatim>\<open>svg\<close> are no HTML elements.
\<close>

definition svg_link_page :: document where
  "svg_link_page =
     page [Element ((shown 2 ''svg'' [])\<lparr>innerText := None\<rparr>)
             [Element ((shown 3 ''a'' [(''href'', ''/p/1'')])\<lparr>innerText := None\<rparr>)
                [Element ((shown 4 ''text'' [])\<lparr>innerText := None\<rparr>) [Text ''Shoe'']]]]"

text \<open>\<^verbatim>\<open><svg role="button" aria-label="Menu"></svg>\<close>\<close>

definition svg_button_page :: document where
  "svg_button_page =
     page [Element ((shown 2 ''svg'' [(''role'', ''button''), (''aria-label'', ''Menu'')])
                      \<lparr>innerText := None\<rparr>) []]"

text \<open>\<^verbatim>\<open><ol><li role="button" value="3"></li></ol>\<close>\<close>

definition numbered_item_page :: document where
  "numbered_item_page =
     page [Element (shown 2 ''ol'' [])
             [Element ((shown 3 ''li'' [(''role'', ''button''), (''value'', ''3'')])
                         \<lparr>valueProp := NumberValue 3\<rparr>) []]]"

section \<open>Notions of the specification\<close>

text \<open>The triple on which an inventory has no duplicates.\<close>

definition triple :: "PageFeature \<Rightarrow> feature_type \<times> string \<times> string" where
  "triple f = (ftype f, ftext f, or_empty (href f))"

text \<open>
  A view of a document: what a function reads from each element, in document order; and
  the \<^verbatim>\<open>value\<close> of every element by identity.
\<close>

definition view :: "(element \<Rightarrow> 'a) \<Rightarrow> document \<Rightarrow> 'a list" where
  "view h d = map (\<lambda>l. h (fst l)) (all_elements d)"

definition element_values :: "document \<Rightarrow> (nat \<times> property) list" where
  "element_values d = view (\<lambda>e. (ref e, valueProp e)) d"

text \<open>In a trace, \<open>a\<close> stands before the first \<open>b\<close>.\<close>

definition happens_before :: "effect \<Rightarrow> effect \<Rightarrow> effect list \<Rightarrow> bool" where
  "happens_before a b xs = (b \<in> set xs \<and> a \<in> set (takeWhile (\<lambda>x. x \<noteq> b) xs))"

text \<open>
  The event types a wait for \<open>event\<close> listens to, the message of its success, and a
  waiter that has resolved with it and holds no listener. An occurrence is quiet for the
  wait when it is an event of another type; a waiter is pending when it has not resolved,
  its timer is set and its listeners are those the wait registers.
\<close>

definition settled :: "string \<Rightarrow> waiter \<Rightarrow> bool" where
  "settled msg w = (done_flag w \<and> listeners w = [] \<and> resolutions w = [succeeded msg])"

definition detected :: "string \<Rightarrow> string" where
  "detected event = (if event = ''click'' then ''Detected click'' else ''Detected input'')"

definition awaits :: "string \<Rightarrow> string \<Rightarrow> bool" where
  "awaits event t =
     (if event = ''click'' then t = ''click''
      else event = ''input'' \<and> (t = ''input'' \<or> t = ''change''))"

definition quiet :: "string \<Rightarrow> occurrence \<Rightarrow> bool" where
  "quiet event x = (case x of Dispatched t \<Rightarrow> \<not> awaits event t | TimerFired \<Rightarrow> False)"

definition pending :: "string \<Rightarrow> waiter \<Rightarrow> bool" where
  "pending event w =
     (\<not> done_flag w \<and> timer w \<and> resolutions w = []
      \<and> listeners w = (if event = ''click'' then [(''click'', OnClick)]
                       else [(''input'', OnInput), (''change'', OnInput)]))"

text \<open>
  The synthetic marker for a counter value, the state after \<open>n\<close> extractions in a row
  (as \<^verbatim>\<open>GET_FEATURES\<close> requests make them), and the engine on the one-button page once
  the marker of counter \<open>k\<close> is stamped.
\<close>

definition marker :: "nat \<Rightarrow> string" where
  "marker n = ''bb-'' @ decimal n"

fun extractions :: "nat \<Rightarrow> engine \<Rightarrow> engine" where
  "extractions 0 st = st"
| "extractions (Suc n) st = snd (extractPageFeatures (extractions n st))"

definition stamped :: "nat \<Rightarrow> engine" where
  "stamped k =
     (loaded (lone_button [(''data-bb-id'', marker k)]))
       \<lparr>selectorCounter := Suc k, elementCache := map (\<lambda>j. (marker j, 2)) [0..<Suc k]\<rparr>"

section \<open>The loops keep their budgets\<close>

lemma link_step_feature:
  assumes "link_step r seen idx st = Inr (Some f, seen', st')"
  shows "ftype f = Link \<and> length (ftext f) \<le> 100"
  using assms
  by (auto simp: link_step_def split: option.splits prod.splits if_splits)

lemma input_step_feature:
  assumes "input_step r idx st = Inr (Some f, st')"
  shows "ftype f = Input"
  using assms
  by (auto simp: input_step_def split: option.splits prod.splits if_splits sum.splits)

lemma button_step_feature:
  assumes "button_step r acts seen idx st = Inr (Some f, seen', st')"
  shows "ftype f = Button \<and> length (ftext f) \<le> 100"
  using assms
  by (auto simp: button_step_def split: option.splits prod.splits if_splits sum.splits)

lemma collect_links_bound:
  assumes "collect_links rs fs seen idx st = (Inr (fs', idx'), st')"
    and "length fs \<le> 60" and "list_all (\<lambda>f. ftype f = Link) fs"
  shows "length fs' \<le> 60 \<and> list_all (\<lambda>f. ftype f = Link) fs'"
  using assms
proof (induction rs arbitrary: fs seen idx st)
  case Nil
  then show ?case by simp
next
  case (Cons r rs)
  show ?case
  proof (cases "length fs \<ge> 60")
    case True
    with Cons.prems show ?thesis by simp
  next
    case False
    with Cons.prems(1) obtain o' seen1 st1 where
      step: "link_step r seen idx st = Inr (o', seen1, st1)"
      by (cases "link_step r seen idx st") auto
    show ?thesis
    proof (cases o')
      case None
      with False step Cons.prems
      have "collect_links rs fs seen1 idx st1 = (Inr (fs', idx'), st')"
        by simp
      from Cons.IH[OF this Cons.prems(2) Cons.prems(3)] show ?thesis .
    next
      case (Some f)
      with False step Cons.prems
      have run: "collect_links rs (fs @ [f]) seen1 (idx + 1) st1 = (Inr (fs', idx'), st')"
        by simp
      from step Some have "ftype f = Link" using link_step_feature by blast
      with Cons.prems(3) have all: "list_all (\<lambda>f. ftype f = Link) (fs @ [f])" by simp
      from False have "length (fs @ [f]) \<le> 60" by simp
      from Cons.IH[OF run this all] show ?thesis .
    qed
  qed
qed

lemma collect_inputs_bound:
  assumes "collect_inputs rs fs idx st = (Inr (fs', idx'), st')"
    and "length fs \<le> 75" and "list_all (\<lambda>f. ftype f = Input) fs"
  shows "length fs' \<le> 75 \<and> list_all (\<lambda>f. ftype f = Input) fs'"
  using assms
proof (induction rs arbitrary: fs idx st)
  case Nil
  then show ?case by simp
next
  case (Cons r rs)
  show ?case
  proof (cases "length fs \<ge> 75")
    case True
    with Cons.prems show ?thesis by simp
  next
    case False
    with Cons.prems(1) obtain o' st1 where step: "input_step r idx st = Inr (o', st1)"
      by (cases "input_step r idx st") auto
    show ?thesis
    proof (cases o')
      case None
      with False step Cons.prems(1) have "collect_inputs rs fs idx st1 = (Inr (fs', idx'), st')"
        by simp
      then show ?thesis using Cons.IH Cons.prems(2,3) by blast
    next
      case (Some f)
      with False step Cons.prems(1)
      have run: "collect_inputs rs (fs @ [f]) (idx + 1) st1 = (Inr (fs', idx'), st')"
        by simp
      have "ftype f = Input" using step Some input_step_feature by blast
      then have "list_all (\<lambda>f. ftype f = Input) (fs @ [f])" using Cons.prems(3) by simp
      moreover have "length (fs @ [f]) \<le> 75" using False by simp
      ultimately show ?thesis using Cons.IH run by blast
    qed
  qed
qed

lemma collect_buttons_bound:
  assumes "collect_buttons rs acts fs seen idx st = (Inr (fs', idx'), st')"
    and "length fs \<le> 75" and "list_all (\<lambda>f. ftype f = Button) fs"
  shows "length fs' \<le> 75 \<and> list_all (\<lambda>f. ftype f = Button) fs'"
  using assms
proof (induction rs arbitrary: fs seen idx st)
  case Nil
  then show ?case by simp
next
  case (Cons r rs)
  show ?case
  proof (cases "length fs \<ge> 75")
    case True
    with Cons.prems show ?thesis by simp
  next
    case False
    with Cons.prems(1) obtain o' seen1 st1 where
      step: "button_step r acts seen idx st = Inr (o', seen1, st1)"
      by (cases "button_step r acts seen idx st") auto
    show ?thesis
    proof (cases o')
      case None
      with False step Cons.prems(1)
      have "collect_buttons rs acts fs seen1 idx st1 = (Inr (fs', idx'), st')" by simp
      then show ?thesis using Cons.IH Cons.prems(2,3) by blast
    next
      case (Some f)
      with False step Cons.prems(1)
      have run: "collect_buttons rs acts (fs @ [f]) seen1 (idx + 1) st1 = (Inr (fs', idx'), st')"
        by simp
      have "ftype f = Button" using step Some button_step_feature by blast
      then have "list_all (\<lambda>f. ftype f = Button) (fs @ [f])" using Cons.prems(3) by simp
      moreover have "length (fs @ [f]) \<le> 75" using False by simp
      ultimately show ?thesis using Cons.IH run by blast
    qed
  qed
qed


lemma dedupe_filter_length: "length (filter P (dedupe seen fs)) \<le> length (filter P fs)"
  by (induction fs arbitrary: seen) (auto simp: le_SucI)

lemma dedupe_keys: "g \<in> set (dedupe seen fs) \<Longrightarrow> feature_key g \<notin> set seen"
proof (induction fs arbitrary: seen)
  case Nil
  then show ?case by simp
next
  case (Cons f fs)
  show ?case
  proof (cases "feature_key f \<in> set seen")
    case True
    with Cons.prems have "g \<in> set (dedupe seen fs)" by simp
    then show ?thesis by (rule Cons.IH)
  next
    case False
    with Cons.prems have "g = f \<or> g \<in> set (dedupe (feature_key f # seen) fs)" by simp
    then show ?thesis
    proof
      assume "g = f"
      with False show ?thesis by simp
    next
      assume "g \<in> set (dedupe (feature_key f # seen) fs)"
      then have "feature_key g \<notin> set (feature_key f # seen)" by (rule Cons.IH)
      then show ?thesis by simp
    qed
  qed
qed

lemma dedupe_distinct_keys: "distinct (map feature_key (dedupe seen fs))"
proof (induction fs arbitrary: seen)
  case Nil
  show ?case by simp
next
  case (Cons f fs)
  have "feature_key f \<notin> set (map feature_key (dedupe (feature_key f # seen) fs))"
  proof
    assume "feature_key f \<in> set (map feature_key (dedupe (feature_key f # seen) fs))"
    then obtain g where g: "g \<in> set (dedupe (feature_key f # seen) fs)"
      and same: "feature_key g = feature_key f" by auto
    from dedupe_keys[OF g] same show False by simp
  qed
  with Cons show ?case by simp
qed

lemma key_of_triple:
  "feature_key f = type_name (fst (triple f)) @ '':'' @ fst (snd (triple f)) @ '':'' @ snd (snd (triple f))"
  by (simp add: feature_key_def triple_def)

lemma distinct_keys_triples:
  "distinct (map feature_key fs) \<Longrightarrow> distinct (map triple fs)"
proof (induction fs)
  case Nil
  show ?case by simp
next
  case (Cons f fs)
  have "triple f \<notin> triple ` set fs"
  proof
    assume "triple f \<in> triple ` set fs"
    then obtain g where "g \<in> set fs" "triple g = triple f" by auto
    then have "feature_key g = feature_key f" by (simp add: key_of_triple)
    moreover from Cons.prems have "feature_key f \<notin> feature_key ` set fs" by simp
    ultimately show False using \<open>g \<in> set fs\<close> by (metis imageI)
  qed
  with Cons show ?case by simp
qed

lemma reindex_triples: "map triple (reindex fs) = map triple fs"
proof -
  have "map triple (reindex fs) = map (triple \<circ> snd) (enumerate 0 fs)"
    by (simp add: reindex_def triple_def case_prod_unfold comp_def)
  also have "\<dots> = map triple (map snd (enumerate 0 fs))"
    by (simp only: map_map)
  also have "\<dots> = map triple fs"
    by (simp only: map_snd_enumerate)
  finally show ?thesis .
qed

lemma count_by_type:
  "length (filter (\<lambda>f. ftype f = t) fs) = length (filter (\<lambda>x. fst x = t) (map triple fs))"
  by (induction fs) (auto simp: triple_def)


text \<open>
  Claim C2. Whatever the document, the inventory \<open>extractPageFeatures\<close> returns has at
  most 60 features of type link, at most 75 of type input and at most 75 of type button,
  and no two of its features have the same type, text and href (an absent href counting
  as the empty string).
\<close>

theorem extract_budget_and_distinct:
  assumes "extractPageFeatures st = (Inr resp, st')"
  shows "\<exists>fs. features resp = Some fs
           \<and> length (filter (\<lambda>f. ftype f = Link) fs) \<le> 60
           \<and> length (filter (\<lambda>f. ftype f = Input) fs) \<le> 75
           \<and> length (filter (\<lambda>f. ftype f = Button) fs) \<le> 75
           \<and> distinct (map (\<lambda>f. (ftype f, ftext f, or_empty (href f))) fs)"
proof -
  from assms obtain ls i1 s1 ins i2 s2 bs i3 where
    links: "collect_links (productLinks (dom st) @ otherLinks (dom st)) [] [] 0 st
              = (Inr (ls, i1), s1)"
    and ins: "collect_inputs (inputs (dom s1)) [] i1 s1 = (Inr (ins, i2), s2)"
    and buttons: "collect_buttons (actionButtons (dom s2) @ otherButtons (dom s2))
                    (actionButtons (dom s2)) [] [] i2 s2 = (Inr (bs, i3), st')"
    and resp: "resp = extraction_result (dom st) (reindex (dedupe [] (ls @ ins @ bs)))"
    by (auto simp: extractPageFeatures_def split: prod.splits sum.splits)
  define fs where "fs = reindex (dedupe [] (ls @ ins @ bs))"
  have L: "length ls \<le> 60 \<and> list_all (\<lambda>f. ftype f = Link) ls"
    using collect_links_bound[OF links] by simp
  have I: "length ins \<le> 75 \<and> list_all (\<lambda>f. ftype f = Input) ins"
    using collect_inputs_bound[OF ins] by simp
  have B: "length bs \<le> 75 \<and> list_all (\<lambda>f. ftype f = Button) bs"
    using collect_buttons_bound[OF buttons] by simp
  have none: "list_all (\<lambda>f. ftype f = t) xs \<Longrightarrow> t \<noteq> u \<Longrightarrow> filter (\<lambda>f. ftype f = u) xs = []"
    for t u and xs :: "PageFeature list"
    by (induction xs) auto
  have all: "list_all (\<lambda>f. ftype f = t) xs \<Longrightarrow> filter (\<lambda>f. ftype f = t) xs = xs"
    for t and xs :: "PageFeature list"
    by (induction xs) auto
  have count: "length (filter (\<lambda>f. ftype f = t) fs) \<le> length (filter (\<lambda>f. ftype f = t) (ls @ ins @ bs))" for t
  proof -
    have "length (filter (\<lambda>f. ftype f = t) fs) = length (filter (\<lambda>x. fst x = t) (map triple fs))"
      by (rule count_by_type)
    also have "\<dots> = length (filter (\<lambda>x. fst x = t) (map triple (dedupe [] (ls @ ins @ bs))))"
      by (simp only: fs_def reindex_triples)
    also have "\<dots> = length (filter (\<lambda>f. ftype f = t) (dedupe [] (ls @ ins @ bs)))"
      by (rule count_by_type[symmetric])
    also have "\<dots> \<le> length (filter (\<lambda>f. ftype f = t) (ls @ ins @ bs))"
      by (rule dedupe_filter_length)
    finally show ?thesis .
  qed
  have "length (filter (\<lambda>f. ftype f = Link) (ls @ ins @ bs)) = length ls"
    using L I B by (simp add: all none[of Input ins Link] none[of Button bs Link])
  with count[of Link] L have c1: "length (filter (\<lambda>f. ftype f = Link) fs) \<le> 60" by simp
  have "length (filter (\<lambda>f. ftype f = Input) (ls @ ins @ bs)) = length ins"
    using L I B by (simp add: all none[of Link ls Input] none[of Button bs Input])
  with count[of Input] I have c2: "length (filter (\<lambda>f. ftype f = Input) fs) \<le> 75" by simp
  have "length (filter (\<lambda>f. ftype f = Button) (ls @ ins @ bs)) = length bs"
    using L I B by (simp add: all none[of Link ls Button] none[of Input ins Button])
  with count[of Button] B have c3: "length (filter (\<lambda>f. ftype f = Button) fs) \<le> 75" by simp
  have "distinct (map triple (dedupe [] (ls @ ins @ bs)))"
    by (rule distinct_keys_triples, rule dedupe_distinct_keys)
  then have "distinct (map triple fs)"
    by (simp only: fs_def reindex_triples)
  then have c4: "distinct (map (\<lambda>f. (ftype f, ftext f, or_empty (href f))) fs)"
    by (simp add: triple_def[abs_def])
  have "features resp = Some fs"
    by (simp add: resp fs_def extraction_result_def)
  with c1 c2 c3 c4 show ?thesis by blast
qed

text \<open>
  The theorem of C2 on the shop page: one link, one input and, of the two buttons with
  the text Add, the first.
\<close>

theorem extract_budget_and_distinct_witness:
  "\<exists>resp st'. extractPageFeatures (loaded shop_page) = (Inr resp, st')
      \<and> (\<exists>fs. features resp = Some fs
            \<and> map triple fs = [(Link, ''Shoe'', ''/p/1''), (Input, ''q'', []), (Button, ''Add'', [])]
            \<and> length (filter (\<lambda>f. ftype f = Link) fs) \<le> 60
            \<and> length (filter (\<lambda>f. ftype f = Input) fs) \<le> 75
            \<and> length (filter (\<lambda>f. ftype f = Button) fs) \<le> 75
            \<and> distinct (map (\<lambda>f. (ftype f, ftext f, or_empty (href f))) fs))"
proof -
  have "case extractPageFeatures (loaded shop_page) of
          (Inr resp, st') \<Rightarrow>
            map triple (the (features resp))
              = [(Link, ''Shoe'', ''/p/1''), (Input, ''q'', []), (Button, ''Add'', [])]
        | (Inl ex, st') \<Rightarrow> False"
    by code_simp
  then obtain resp st' where run: "extractPageFeatures (loaded shop_page) = (Inr resp, st')"
    and shown: "map triple (the (features resp))
                  = [(Link, ''Shoe'', ''/p/1''), (Input, ''q'', []), (Button, ''Add'', [])]"
    by (auto split: prod.splits sum.splits)
  from extract_budget_and_distinct[OF run] shown run show ?thesis
    by auto
qed

section \<open>What extraction leaves alone\<close>

lemma view_map_node:
  assumes "\<And>e. h (g e) = h e"
  shows "map (\<lambda>l. h (fst l)) (subtree_elements as (map_node g n))
           = map (\<lambda>l. h (fst l)) (subtree_elements bs n)"
proof (induction n arbitrary: as bs)
  case (Text s)
  show ?case by simp
next
  case (Element e cs)
  have "map (\<lambda>c. map (\<lambda>l. h (fst l)) (subtree_elements (g e # as) (map_node g c))) cs
          = map (\<lambda>c. map (\<lambda>l. h (fst l)) (subtree_elements (e # bs) c)) cs"
    by (rule map_cong[OF refl]) (rule Element.IH)
  then have "concat (map (\<lambda>c. map (\<lambda>l. h (fst l)) (subtree_elements (g e # as) (map_node g c))) cs)
          = concat (map (\<lambda>c. map (\<lambda>l. h (fst l)) (subtree_elements (e # bs) c)) cs)"
    by (rule arg_cong)
  then show ?case
    using assms by (simp add: map_concat comp_def)
qed

lemma documentElement_update:
  "documentElement (update_element r f d)
     = map_node (\<lambda>e. if ref e = r then f e else e) (documentElement d)"
  by (simp add: documentElement_def update_element_def Let_def)

lemma view_update_element:
  assumes "\<And>e. h (f e) = h e"
  shows "view h (update_element r f d) = view h d"
  unfolding view_def all_elements_def documentElement_update
  by (rule view_map_node) (simp add: assms)

text \<open>
  A view of the elements that does not read the marker attribute is the same before and
  after selector generation, and so through the three loops; the trace is untouched.
\<close>

lemma generateSelector_frame:
  assumes "generateSelector el st = (s, st')"
    and "\<And>e v. h (e\<lparr>attributes := AList.update ''data-bb-id'' v (attributes e)\<rparr>) = h e"
  shows "trace st' = trace st \<and> view h (dom st') = view h (dom st)"
  using assms(1)
  by (auto simp: generateSelector_def Let_def setAttribute_def view_update_element[of h, OF assms(2)]
      split: if_splits)

lemma link_step_frame:
  assumes "link_step r seen idx st = Inr (o', seen', st')"
    and "\<And>e v. h (e\<lparr>attributes := AList.update ''data-bb-id'' v (attributes e)\<rparr>) = h e"
  shows "trace st' = trace st \<and> view h (dom st') = view h (dom st)"
proof (cases o')
  case None
  with assms(1) have "st' = st"
    by (auto simp: link_step_def split: option.splits prod.splits if_splits)
  then show ?thesis by simp
next
  case (Some f)
  with assms(1) obtain el s where "generateSelector el st = (s, st')"
    by (auto simp: link_step_def split: option.splits prod.splits if_splits)
  then show ?thesis by (rule generateSelector_frame) (rule assms(2))
qed

lemma input_step_frame:
  assumes "input_step r idx st = Inr (o', st')"
    and "\<And>e v. h (e\<lparr>attributes := AList.update ''data-bb-id'' v (attributes e)\<rparr>) = h e"
  shows "trace st' = trace st \<and> view h (dom st') = view h (dom st)"
proof (cases o')
  case None
  with assms(1) show ?thesis
    by (auto simp: input_step_def split: option.splits prod.splits if_splits sum.splits)
next
  case (Some f)
  with assms(1) obtain el s where "generateSelector el st = (s, st')"
    by (auto simp: input_step_def split: option.splits prod.splits if_splits sum.splits)
  then show ?thesis by (rule generateSelector_frame) (rule assms(2))
qed

lemma button_step_frame:
  assumes "button_step r acts seen idx st = Inr (o', seen', st')"
    and "\<And>e v. h (e\<lparr>attributes := AList.update ''data-bb-id'' v (attributes e)\<rparr>) = h e"
  shows "trace st' = trace st \<and> view h (dom st') = view h (dom st)"
proof (cases "st' = st")
  case True
  then show ?thesis by simp
next
  case False
  with assms(1) obtain el s where "generateSelector el st = (s, st')"
    by (auto simp: button_step_def split: option.splits prod.splits if_splits sum.splits)
  then show ?thesis by (rule generateSelector_frame) (rule assms(2))
qed

lemma collect_links_frame:
  assumes "\<And>e v. h (e\<lparr>attributes := AList.update ''data-bb-id'' v (attributes e)\<rparr>) = h e"
  shows "collect_links rs fs seen idx st = (Inr (fs', idx'), st') \<Longrightarrow>
     trace st' = trace st \<and> view h (dom st') = view h (dom st)"
proof (induction rs arbitrary: fs seen idx st)
  case Nil
  then show ?case by simp
next
  case (Cons r rs)
  show ?case
  proof (cases "length fs \<ge> 60")
    case True
    with Cons.prems show ?thesis by simp
  next
    case False
    with Cons.prems obtain o' seen1 st1 where
      step: "link_step r seen idx st = Inr (o', seen1, st1)"
      by (cases "link_step r seen idx st") auto
    with False Cons.prems
    have "\<exists>gs j. collect_links rs gs seen1 j st1 = (Inr (fs', idx'), st')"
      by (cases o') auto
    then obtain gs j where "collect_links rs gs seen1 j st1 = (Inr (fs', idx'), st')" by blast
    from Cons.IH[OF this] link_step_frame[of _ _ _ _ _ _ _ h, OF step assms]
    show ?thesis by simp
  qed
qed

lemma collect_inputs_frame:
  assumes "\<And>e v. h (e\<lparr>attributes := AList.update ''data-bb-id'' v (attributes e)\<rparr>) = h e"
  shows "collect_inputs rs fs idx st = (Inr (fs', idx'), st') \<Longrightarrow>
     trace st' = trace st \<and> view h (dom st') = view h (dom st)"
proof (induction rs arbitrary: fs idx st)
  case Nil
  then show ?case by simp
next
  case (Cons r rs)
  show ?case
  proof (cases "length fs \<ge> 75")
    case True
    with Cons.prems show ?thesis by simp
  next
    case False
    with Cons.prems obtain o' st1 where step: "input_step r idx st = Inr (o', st1)"
      by (cases "input_step r idx st") auto
    with False Cons.prems have "\<exists>gs j. collect_inputs rs gs j st1 = (Inr (fs', idx'), st')"
      by (cases o') auto
    then obtain gs j where "collect_inputs rs gs j st1 = (Inr (fs', idx'), st')" by blast
    from Cons.IH[OF this] input_step_frame[of _ _ _ _ _ h, OF step assms] show ?thesis by simp
  qed
qed

lemma collect_buttons_frame:
  assumes "\<And>e v. h (e\<lparr>attributes := AList.update ''data-bb-id'' v (attributes e)\<rparr>) = h e"
  shows "collect_buttons rs acts fs seen idx st = (Inr (fs', idx'), st') \<Longrightarrow>
     trace st' = trace st \<and> view h (dom st') = view h (dom st)"
proof (induction rs arbitrary: fs seen idx st)
  case Nil
  then show ?case by simp
next
  case (Cons r rs)
  show ?case
  proof (cases "length fs \<ge> 75")
    case True
    with Cons.prems show ?thesis by simp
  next
    case False
    with Cons.prems obtain o' seen1 st1 where
      step: "button_step r acts seen idx st = Inr (o', seen1, st1)"
      by (cases "button_step r acts seen idx st") auto
    with False Cons.prems
    have "\<exists>gs j. collect_buttons rs acts gs seen1 j st1 = (Inr (fs', idx'), st')"
      by (cases o') auto
    then obtain gs j where "collect_buttons rs acts gs seen1 j st1 = (Inr (fs', idx'), st')"
      by blast
    from Cons.IH[OF this] button_step_frame[of _ _ _ _ _ _ _ _ h, OF step assms]
    show ?thesis by simp
  qed
qed

lemma extract_frame:
  assumes "extractPageFeatures st = (Inr resp, st')"
  shows "trace st' = trace st \<and> element_values (dom st') = element_values (dom st)"
proof -
  from assms obtain ls i1 s1 ins i2 s2 bs i3 where
    links: "collect_links (productLinks (dom st) @ otherLinks (dom st)) [] [] 0 st
              = (Inr (ls, i1), s1)"
    and ins: "collect_inputs (inputs (dom s1)) [] i1 s1 = (Inr (ins, i2), s2)"
    and buttons: "collect_buttons (actionButtons (dom s2) @ otherButtons (dom s2))
                    (actionButtons (dom s2)) [] [] i2 s2 = (Inr (bs, i3), st')"
    by (auto simp: extractPageFeatures_def split: prod.splits sum.splits)
  have h: "(\<lambda>e. (ref e, valueProp e)) (e\<lparr>attributes := AList.update ''data-bb-id'' v (attributes e)\<rparr>)
             = (\<lambda>e. (ref e, valueProp e)) e" for e :: element and v
    by simp
  from collect_links_frame[of "\<lambda>e. (ref e, valueProp e)", OF h links]
    collect_inputs_frame[of "\<lambda>e. (ref e, valueProp e)", OF h ins]
    collect_buttons_frame[of "\<lambda>e. (ref e, valueProp e)", OF h buttons]
  show ?thesis by (simp add: element_values_def)
qed

lemma values_restore_styles: "element_values (restore_styles hs d) = element_values d"
proof (induction hs arbitrary: d)
  case Nil
  show ?case by simp
next
  case (Cons h hs)
  obtain r outline shadow where h: "h = (r, outline, shadow)" by (cases h) auto
  have "element_values
          (update_element r (\<lambda>e. assign_style ''box-shadow'' shadow (assign_style ''outline'' outline e)) d)
        = element_values d"
    unfolding element_values_def by (rule view_update_element) (simp add: assign_style_def)
  with Cons.IH show ?case by (simp add: h)
qed

lemma clearAllHighlights_frame:
  "trace (clearAllHighlights st) = trace st
   \<and> element_values (dom (clearAllHighlights st)) = element_values (dom st)"
  by (simp add: clearAllHighlights_def values_restore_styles)

lemma highlightElement_frame:
  "trace (highlightElement r ms st) = trace st
   \<and> element_values (dom (highlightElement r ms st)) = element_values (dom st)"
proof (cases "find_element (dom st) r")
  case None
  then show ?thesis by (simp add: highlightElement_def)
next
  case (Some l)
  have "element_values (update_element r
          (\<lambda>e. setProperty ''box-shadow'' ''0 0 0 4px rgba(255, 0, 0, 0.35)''
                  (setProperty ''outline-offset'' ''2px'' (setProperty ''outline'' ''3px solid #ff0000'' e)))
          (dom st)) = element_values (dom st)"
    unfolding element_values_def by (rule view_update_element) (simp add: setProperty_def)
  with Some show ?thesis
    by (cases l) (simp add: highlightElement_def)
qed

lemma markElementAsClicked_trace: "trace (markElementAsClicked r st) = trace st"
proof (cases "find_element (dom st) r")
  case None
  then show ?thesis by (simp add: markElementAsClicked_def)
next
  case (Some l)
  obtain el ancs cs where l: "l = (el, ancs, cs)" by (cases l) auto
  obtain s st1 where g: "generateSelector el st = (s, st1)" by (cases "generateSelector el st") auto
  have "trace st1 = trace st"
    using generateSelector_frame[of el st s st1 ref, OF g] by simp
  with Some l g show ?thesis by (simp add: markElementAsClicked_def)
qed

text \<open>The steps up to the pause, on a resolved element.\<close>

lemma approach_trace:
  "trace (emit (Await 500) (highlightElement r 5000 (emit (HighlightElement r 5000)
            (emit (ScrollIntoView r) (clearAllHighlights (emit ClearAllHighlights st))))))
     = trace st @ [ClearAllHighlights, ScrollIntoView r, HighlightElement r 5000, Await 500]"
  by (simp add: emit_def highlightElement_frame clearAllHighlights_frame)


section \<open>The action executor\<close>




text \<open>
  Claim C8, as amended. For a payload with action CLICK or TYPE whose \<open>targetIndex\<close>
  is \<^verbatim>\<open>null\<close>, \<open>executeAction\<close> returns the failure
  \<^verbatim>\<open>No target element specified\<close> and the engine, its document and its trace are as
  before the call: no extraction, no access to the document.
\<close>

theorem null_target:
  assumes "action p = ''CLICK'' \<or> action p = ''TYPE''" and "targetIndex p = Null"
  shows "executeAction p st = (Inr (failed ''No target element specified''), st)"
  using assms by (auto simp: executeAction_def)

text \<open>The theorem of C8 for a CLICK with a \<^verbatim>\<open>null\<close> target on the one-button page.\<close>

theorem null_target_witness:
  "executeAction (click_payload Null) (loaded (lone_button []))
     = (Inr (failed ''No target element specified''), loaded (lone_button []))"
  using null_target[of "click_payload Null" "loaded (lone_button [])"]
  by (simp add: click_payload_def)

text \<open>
  Claim C8 as stated fails for a payload without the field: the guard compares with
  \<^verbatim>\<open>null\<close> only, the extraction runs (the button is stamped and cached), and the
  failure is the one of an index that is not found.
\<close>

theorem undefined_target_reaches_extraction:
  "fst (executeAction (click_payload Undefined) (loaded (lone_button [])))
     = Inr (failed ''Element with index undefined not found'')
   \<and> dom (snd (executeAction (click_payload Undefined) (loaded (lone_button []))))
       = lone_button [(''data-bb-id'', ''bb-0'')]
   \<and> elementCache (snd (executeAction (click_payload Undefined) (loaded (lone_button []))))
       = [(''bb-0'', 2)]"
  by code_simp

text \<open>
  Claim C6, as amended. In a call of \<open>executeAction\<close> for CLICK or TYPE that
  succeeds, the steps on the page are, in this order: clear the highlights, scroll the
  element into view, highlight it for 5000 ms, pause 500 ms, and then the action (for
  CLICK the pointer cue, a pause of 800 ms and the native click; for TYPE focus, the write
  of the value, the input event and the change event).
\<close>

theorem choreography_order:
  assumes "action p = ''CLICK'' \<or> action p = ''TYPE''"
    and "executeAction p st = (Inr resp, st')" and "success resp"
  shows "\<exists>r. trace st' = trace st
            @ [ClearAllHighlights, ScrollIntoView r, HighlightElement r 5000, Await 500]
            @ (if action p = ''CLICK'' then [MovePointerToElement r, Await 800, Click r]
               else [Focus r, SetValue r (or_empty (textInput p)),
                     DispatchEvent r ''input'', DispatchEvent r ''change''])"
proof -
  from assms have notnull: "targetIndex p \<noteq> Null"
    by (auto simp: executeAction_def failed_def)
  from assms(1) have act: "action p \<noteq> ''SCROLL''" "action p \<noteq> ''WAIT''" by auto
  obtain x st1 where ex: "extractPageFeatures st = (x, st1)"
    by (cases "extractPageFeatures st") auto
  with assms(2) act notnull obtain page where x: "x = Inr page"
    by (cases x) (auto simp: executeAction_def)
  from assms(2,3) act notnull ex x obtain feature where
    feat: "find_feature (targetIndex p) page = Some feature"
    by (cases "find_feature (targetIndex p) page") (auto simp: executeAction_def failed_def)
  from assms(2,3) act notnull ex x feat obtain r where
    el: "getElementBySelector st1 (selector feature) = Some r"
    by (cases "getElementBySelector st1 (selector feature)") (auto simp: executeAction_def failed_def)
  let ?st5 = "emit (Await 500) (highlightElement r 5000 (emit (HighlightElement r 5000)
            (emit (ScrollIntoView r) (clearAllHighlights (emit ClearAllHighlights st1)))))"
  have run: "perform p feature r ?st5 = (Inr resp, st')"
    using assms(2) act notnull ex x feat el by (simp add: executeAction_def Let_def)
  have t5: "trace ?st5 = trace st @ [ClearAllHighlights, ScrollIntoView r, HighlightElement r 5000, Await 500]"
    using approach_trace[of r st1] extract_frame[OF ex[unfolded x]] by simp
  from assms(1) show ?thesis
  proof
    assume c: "action p = ''CLICK''"
    with run have "st' = markElementAsClicked r (emit (Click r) (emit (Await 800)
                      (movePointerToElement r (emit (MovePointerToElement r) ?st5))))"
      by (simp add: perform_def Let_def split: if_splits)
    then have "trace st' = trace ?st5 @ [MovePointerToElement r, Await 800, Click r]"
      by (simp add: markElementAsClicked_trace emit_def movePointerToElement_def)
    with t5 c show ?thesis by auto
  next
    assume c: "action p = ''TYPE''"
    with run assms(3) have given: "or_empty (textInput p) \<noteq> []"
      by (auto simp: perform_def failed_def split: if_splits)
    with run c have "st' = emit (DispatchEvent r ''change'') (emit (DispatchEvent r ''input'')
                      (set_value r (or_empty (textInput p))
                         (emit (SetValue r (or_empty (textInput p))) (emit (Focus r) ?st5))))"
      by (simp add: perform_def Let_def)
    then have "trace st' = trace ?st5 @ [Focus r, SetValue r (or_empty (textInput p)),
                     DispatchEvent r ''input'', DispatchEvent r ''change'']"
      by (simp add: emit_def set_value_def)
    with t5 c show ?thesis by auto
  qed
qed

text \<open>The theorem of C6 for a CLICK on the one-button page.\<close>

theorem choreography_order_witness:
  "\<exists>resp st'. executeAction (click_payload (Number 0)) (loaded (lone_button [])) = (Inr resp, st')
      \<and> success resp
      \<and> (\<exists>r. trace st' = [ClearAllHighlights, ScrollIntoView r, HighlightElement r 5000, Await 500,
                           MovePointerToElement r, Await 800, Click r])"
proof -
  have "case executeAction (click_payload (Number 0)) (loaded (lone_button [])) of
          (Inr resp, st') \<Rightarrow> success resp
        | (Inl ex, st') \<Rightarrow> False"
    by code_simp
  then obtain resp st' where
    a: "executeAction (click_payload (Number 0)) (loaded (lone_button [])) = (Inr resp, st')"
    and b: "success resp"
    by (auto split: prod.splits sum.splits)
  have c: "action (click_payload (Number 0)) = ''CLICK'' \<or> action (click_payload (Number 0)) = ''TYPE''"
    by (simp add: click_payload_def)
  from choreography_order[OF c a b] a b show ?thesis
    by (simp add: click_payload_def loaded_def)
qed

text \<open>
  Claim C6 as stated fails for a CLICK on the one-button page: the highlight does not
  come before the scroll into view; the scroll comes before the highlight.
\<close>

theorem scroll_precedes_highlight:
  "trace (snd (executeAction (click_payload (Number 0)) (loaded (lone_button []))))
     = [ClearAllHighlights, ScrollIntoView 2, HighlightElement 2 5000, Await 500,
        MovePointerToElement 2, Await 800, Click 2]
   \<and> \<not> happens_before (HighlightElement 2 5000) (ScrollIntoView 2)
         (trace (snd (executeAction (click_payload (Number 0)) (loaded (lone_button [])))))
   \<and> happens_before (ScrollIntoView 2) (HighlightElement 2 5000)
         (trace (snd (executeAction (click_payload (Number 0)) (loaded (lone_button [])))))"
  by code_simp

section \<open>The event waiter\<close>

lemma settled_deliver: "settled msg w \<Longrightarrow> settled msg (deliver x w)"
  by (cases x) (auto simp: settled_def deliver_def finish_def)

lemma settled_run: "settled msg w \<Longrightarrow> settled msg (run xs w)"
  by (induction xs arbitrary: w) (simp_all add: settled_deliver)

lemma start_click_dispatch:
  "deliver (Dispatched t) (waitForEvent_start ''click'') =
     (if t = ''click'' then finish True ''Detected click'' (waitForEvent_start ''click'')
      else waitForEvent_start ''click'')"
  by (simp add: deliver_def waitForEvent_start_def run_handler_def)

lemma start_input_dispatch:
  "deliver (Dispatched t) (waitForEvent_start ''input'') =
     (if t = ''input'' \<or> t = ''change'' then finish True ''Detected input'' (waitForEvent_start ''input'')
      else waitForEvent_start ''input'')"
  by (auto simp: deliver_def waitForEvent_start_def run_handler_def finish_def)

lemma finish_start_settled:
  "event = ''click'' \<or> event = ''input'' \<Longrightarrow>
     settled (detected event) (finish True (detected event) (waitForEvent_start event))"
  by (auto simp: settled_def finish_def waitForEvent_start_def detected_def)

lemma start_dispatch:
  assumes "event = ''click'' \<or> event = ''input''"
  shows "deliver (Dispatched t) (waitForEvent_start event) =
           (if awaits event t then finish True (detected event) (waitForEvent_start event)
            else waitForEvent_start event)"
  using assms
  by (auto simp: start_click_dispatch start_input_dispatch awaits_def detected_def)

lemma before_timer:
  assumes "event = ''click'' \<or> event = ''input''" and "TimerFired \<notin> set xs"
    and "w = waitForEvent_start event \<or> settled (detected event) w"
  shows "run xs w = waitForEvent_start event \<or> settled (detected event) (run xs w)"
  using assms(2,3)
proof (induction xs arbitrary: w)
  case Nil
  then show ?case by simp
next
  case (Cons x xs)
  from Cons.prems(1) obtain t where x: "x = Dispatched t" by (cases x) auto
  have "deliver x w = waitForEvent_start event \<or> settled (detected event) (deliver x w)"
    using Cons.prems(2)
  proof
    assume "w = waitForEvent_start event"
    then show ?thesis
      using x start_dispatch[OF assms(1), of t] finish_start_settled[OF assms(1)] by auto
  next
    assume "settled (detected event) w"
    then show ?thesis by (simp add: settled_deliver)
  qed
  moreover from Cons.prems(1) have "TimerFired \<notin> set xs" by simp
  ultimately show ?case using Cons.IH by simp
qed

text \<open>
  Events of other types leave the wait as the executor set it up: pending, with its
  listeners and its timer.
\<close>

lemma start_pending:
  "event = ''click'' \<or> event = ''input'' \<Longrightarrow> pending event (waitForEvent_start event)"
  by (auto simp: pending_def waitForEvent_start_def)

lemma quiet_run:
  assumes "event = ''click'' \<or> event = ''input''" and "list_all (quiet event) xs"
  shows "run xs (waitForEvent_start event) = waitForEvent_start event"
  using assms(2)
proof (induction xs)
  case Nil
  show ?case by simp
next
  case (Cons x xs)
  from Cons.prems obtain t where x: "x = Dispatched t" and t: "\<not> awaits event t"
    by (cases x) (auto simp: quiet_def)
  have "deliver x (waitForEvent_start event) = waitForEvent_start event"
    using start_dispatch[OF assms(1), of t] t by (simp add: x)
  with Cons show ?case by simp
qed

text \<open>
  Claim C9. A wait for click (or input) whose awaited event reaches the element before
  the timer fires: as long as only events of other types have reached the element, the
  promise is unresolved, the listeners are registered and the timer is set; with the
  awaited event \<^verbatim>\<open>resolve\<close> is called, with the success of that event, and whatever
  follows (the timer, further events) \<^verbatim>\<open>resolve\<close> has been called exactly once and no
  listener is left on the element.
\<close>

theorem wait_resolves_once:
  assumes "awaits event t" and "TimerFired \<notin> set earlier"
  shows "(list_all (quiet event) earlier \<longrightarrow>
            pending event (run earlier (waitForEvent_start event)))
         \<and> resolutions (run (earlier @ [Dispatched t]) (waitForEvent_start event))
             = [succeeded (detected event)]
         \<and> resolutions (run (earlier @ Dispatched t # later) (waitForEvent_start event))
             = [succeeded (detected event)]
         \<and> listeners (run (earlier @ Dispatched t # later) (waitForEvent_start event)) = []
         \<and> done_flag (run (earlier @ Dispatched t # later) (waitForEvent_start event))"
proof -
  from assms(1) have ev: "event = ''click'' \<or> event = ''input''"
    by (auto simp: awaits_def split: if_splits)
  have run_append: "run (xs @ ys) w = run ys (run xs w)" for xs ys w
    by (induction xs arbitrary: w) simp_all
  let ?w = "run earlier (waitForEvent_start event)"
  have before: "list_all (quiet event) earlier \<longrightarrow> pending event ?w"
    using quiet_run[OF ev] start_pending[OF ev] by simp
  have "?w = waitForEvent_start event \<or> settled (detected event) ?w"
    using before_timer[OF ev assms(2)] by simp
  then have at_event: "settled (detected event) (deliver (Dispatched t) ?w)"
  proof
    assume "?w = waitForEvent_start event"
    then show ?thesis
      using start_dispatch[OF ev, of t] assms(1) finish_start_settled[OF ev] by simp
  next
    assume "settled (detected event) ?w"
    then show ?thesis by (rule settled_deliver)
  qed
  then have "settled (detected event) (run later (deliver (Dispatched t) ?w))"
    by (rule settled_run)
  with at_event before show ?thesis
    by (simp add: run_append settled_def)
qed

text \<open>
  The theorem of C9 for a wait for click: an input event, which leaves the wait pending,
  the click, then the timer and a second click.
\<close>

theorem wait_resolves_once_witness:
  "awaits ''click'' ''click'' \<and> TimerFired \<notin> set [Dispatched ''input'']
   \<and> list_all (quiet ''click'') [Dispatched ''input'']
   \<and> resolutions (run [Dispatched ''input''] (waitForEvent_start ''click'')) = []
   \<and> listeners (run [Dispatched ''input''] (waitForEvent_start ''click'')) = [(''click'', OnClick)]
   \<and> timer (run [Dispatched ''input''] (waitForEvent_start ''click''))
   \<and> \<not> done_flag (run [Dispatched ''input''] (waitForEvent_start ''click''))
   \<and> resolutions (run ([Dispatched ''input''] @ [Dispatched ''click'']) (waitForEvent_start ''click''))
       = [succeeded ''Detected click'']
   \<and> resolutions (run ([Dispatched ''input''] @ Dispatched ''click'' # [TimerFired, Dispatched ''click''])
                    (waitForEvent_start ''click'')) = [succeeded ''Detected click'']
   \<and> listeners (run ([Dispatched ''input''] @ Dispatched ''click'' # [TimerFired, Dispatched ''click''])
                    (waitForEvent_start ''click'')) = []"
proof -
  have a: "awaits ''click'' ''click''" by (simp add: awaits_def)
  have b: "TimerFired \<notin> set [Dispatched ''input'']" by simp
  have q: "list_all (quiet ''click'') [Dispatched ''input'']"
    by (simp add: quiet_def awaits_def)
  from wait_resolves_once[OF a b, of "[TimerFired, Dispatched ''click'']"] a b q
  show ?thesis by (simp add: detected_def pending_def)
qed

section \<open>Markers on the one-button page\<close>

lemma lone_button_elements:
  "all_elements (lone_button as) =
     [(shown 0 ''html'' [], [], [Element (shown 1 ''body'' []) [Element (shown 2 ''button'' as) [Text ''Go'']]]),
      (shown 1 ''body'' [], [shown 0 ''html'' []], [Element (shown 2 ''button'' as) [Text ''Go'']]),
      (shown 2 ''button'' as, [shown 1 ''body'' [], shown 0 ''html'' []], [Text ''Go''])]"
  by (simp add: all_elements_def documentElement_def lone_button_def page_def)

lemma shown_fields [simp]:
  "ref (shown r n as) = r" "localName (shown r n as) = n" "attributes (shown r n as) = as"
  "valueProp (shown r n as) = Absent" "innerText (shown r n as) = Some []"
  "isVisible (shown r n as)" "rectWidth (shown r n as) = 100"
  by (simp_all add: shown_def isVisible_def)

lemma no_class: "map_of as ''class'' = None \<Longrightarrow> classList (shown r n as) = []"
  by (simp add: classList_def attr_def getAttribute_def or_empty_def)

lemma marked_attrs:
  assumes "as = [] \<or> as = [(''data-bb-id'', v)]"
  shows "map_of as ''class'' = None" "map_of as ''id'' = None" "map_of as ''name'' = None"
    "map_of as ''role'' = None" "map_of as ''type'' = None" "map_of as ''aria-label'' = None"
  using assms by auto

lemma lone_button_candidates:
  assumes "as = [] \<or> as = [(''data-bb-id'', v)]"
  shows "productLinks (lone_button as) = []" "otherLinks (lone_button as) = []"
    "inputs (lone_button as) = []" "actionButtons (lone_button as) = []"
    "otherButtons (lone_button as) = [2]"
  using marked_attrs[OF assms]
  by (simp_all add: productLinks_def otherLinks_def inputs_def actionButtons_def otherButtons_def
      lone_button_elements refs_def has_class_def no_class attr_contains_def getAttribute_def)

lemma lone_button_find:
  "find_element (lone_button as) 2
     = Some (shown 2 ''button'' as, [shown 1 ''body'' [], shown 0 ''html'' []], [Text ''Go''])"
  by (simp add: find_element_def lone_button_elements)

lemma lone_button_stamp:
  assumes "as = [] \<or> as = [(''data-bb-id'', v)]"
  shows "setAttribute 2 ''data-bb-id'' w (lone_button as) = lone_button [(''data-bb-id'', w)]"
  using assms
  by (auto simp: setAttribute_def update_element_def lone_button_def page_def shown_def)

lemma lone_button_selector:
  assumes "as = [] \<or> as = [(''data-bb-id'', v)]" and "dom st = lone_button as"
  shows \<open>generateSelector (shown 2 ''button'' as) st =
           (''[data-bb-id="'' @ marker (selectorCounter st) @ ''"]'',
            st\<lparr>selectorCounter := selectorCounter st + 1,
               elementCache := AList.update (marker (selectorCounter st)) 2 (elementCache st),
               dom := lone_button [(''data-bb-id'', marker (selectorCounter st))]\<rparr>)\<close>
  using marked_attrs[OF assms(1)] lone_button_stamp[OF assms(1)] assms(2)
  by (simp add: generateSelector_def usable_def id_selector_def name_selector_def
      class_selector_def no_class attr_def getAttribute_def or_empty_def Let_def marker_def)

lemma lone_button_text:
  "button_text (shown 2 ''button'' as) [Text ''Go''] = Inr ''Go''" "\<not> css_like ''Go''"
  by (simp_all add: button_text_def clean_text_def trim_def white_space_def or_else_def
      css_like_def startsWith_def)

lemma lone_button_step:
  assumes "as = [] \<or> as = [(''data-bb-id'', v)]" and "dom st = lone_button as"
  shows "\<exists>f. button_step 2 [] [] idx st =
       Inr (Some f, [selector f],
            st\<lparr>selectorCounter := selectorCounter st + 1,
               elementCache := AList.update (marker (selectorCounter st)) 2 (elementCache st),
               dom := lone_button [(''data-bb-id'', marker (selectorCounter st))]\<rparr>)"
  using lone_button_selector[OF assms] assms(2) marked_attrs[OF assms(1)]
  by (simp add: button_step_def lone_button_find lone_button_text attr_def getAttribute_def
      or_empty_def)

lemma lone_button_extract:
  assumes "as = [] \<or> as = [(''data-bb-id'', v)]" and "dom st = lone_button as"
  shows "snd (extractPageFeatures st) =
            st\<lparr>selectorCounter := selectorCounter st + 1,
               elementCache := AList.update (marker (selectorCounter st)) 2 (elementCache st),
               dom := lone_button [(''data-bb-id'', marker (selectorCounter st))]\<rparr>"
proof -
  obtain f where "button_step 2 [] [] 0 st =
       Inr (Some f, [selector f],
            st\<lparr>selectorCounter := selectorCounter st + 1,
               elementCache := AList.update (marker (selectorCounter st)) 2 (elementCache st),
               dom := lone_button [(''data-bb-id'', marker (selectorCounter st))]\<rparr>)"
    using lone_button_step[OF assms] by blast
  then show ?thesis
    using lone_button_candidates[OF assms(1)] assms(2)
    by (simp add: extractPageFeatures_def)
qed

lemma digits_inj: "a < 10 \<Longrightarrow> b < 10 \<Longrightarrow> digits ! a = digits ! b \<Longrightarrow> a = b"
proof -
  assume "a < 10" "b < 10" "digits ! a = digits ! b"
  moreover have "distinct digits" "length digits = 10" by (simp_all add: digits_def)
  ultimately show "a = b" by (simp add: nth_eq_iff_index_eq)
qed

lemma decimal_nonempty: "decimal k \<noteq> []"
  by (subst decimal.simps) (simp add: Let_def)

lemma decimal_inj: "decimal m = decimal n \<Longrightarrow> m = n"
proof (induction m arbitrary: n rule: less_induct)
  case (less m)
  have dm: "decimal m = (if m div 10 = 0 then [] else decimal (m div 10)) @ [digits ! (m mod 10)]"
    by (subst decimal.simps) (simp add: Let_def)
  have dn: "decimal n = (if n div 10 = 0 then [] else decimal (n div 10)) @ [digits ! (n mod 10)]"
    by (subst decimal.simps) (simp add: Let_def)
  from less.prems dm dn
  have front: "(if m div 10 = 0 then [] else decimal (m div 10))
                 = (if n div 10 = 0 then [] else decimal (n div 10))"
    and last_eq: "digits ! (m mod 10) = digits ! (n mod 10)"
    by simp_all
  from last_eq have low: "m mod 10 = n mod 10" by (intro digits_inj) simp_all
  have high: "m div 10 = n div 10"
  proof (cases "m div 10 = 0")
    case True
    with front decimal_nonempty[of "n div 10"] show ?thesis by (auto split: if_splits)
  next
    case False
    with front decimal_nonempty[of "m div 10"] have "decimal (m div 10) = decimal (n div 10)"
      by (auto split: if_splits)
    moreover from False have "m div 10 < m" by simp
    ultimately show ?thesis by (rule less.IH[rotated])
  qed
  from low high show ?case by (metis div_mult_mod_eq)
qed

lemma update_fresh: "k \<notin> fst ` set al \<Longrightarrow> AList.update k v al = al @ [(k, v)]"
  by (induction al) auto

lemma marker_fresh: "marker k \<notin> fst ` set (map (\<lambda>j. (marker j, 2::nat)) [0..<k])"
proof
  assume "marker k \<in> fst ` set (map (\<lambda>j. (marker j, 2::nat)) [0..<k])"
  then obtain j where "j < k" and "decimal k = decimal j" by (auto simp: marker_def)
  then show False using decimal_inj[of k j] by simp
qed

lemma stamped_next: "snd (extractPageFeatures (stamped k)) = stamped (Suc k)"
proof -
  have as: "[(''data-bb-id'', marker k)] = [] \<or> [(''data-bb-id'', marker k)] = [(''data-bb-id'', marker k)]"
    by simp
  have d: "dom (stamped k) = lone_button [(''data-bb-id'', marker k)]"
    by (simp add: stamped_def loaded_def)
  have c: "selectorCounter (stamped k) = Suc k"
    and e: "elementCache (stamped k) = map (\<lambda>j. (marker j, 2)) [0..<Suc k]"
    by (simp_all add: stamped_def)
  have "AList.update (marker (Suc k)) 2 (map (\<lambda>j. (marker j, 2::nat)) [0..<Suc k])
          = map (\<lambda>j. (marker j, 2)) [0..<Suc k] @ [(marker (Suc k), 2)]"
    by (rule update_fresh) (rule marker_fresh)
  then have u: "AList.update (marker (Suc k)) 2 (elementCache (stamped k))
          = map (\<lambda>j. (marker j, 2)) [0..<Suc (Suc k)]"
    by (simp add: e)
  show ?thesis
    unfolding lone_button_extract[OF as d] c u
    by (simp add: stamped_def loaded_def)
qed

lemma stamped_first: "snd (extractPageFeatures (loaded (lone_button []))) = stamped 0"
proof -
  have as: "[] = [] \<or> [] = [(''data-bb-id'', [])]" by simp
  have d: "dom (loaded (lone_button [])) = lone_button []" by (simp add: loaded_def)
  show ?thesis
    unfolding lone_button_extract[OF as d]
    by (simp add: stamped_def loaded_def)
qed

lemma extractions_stamped: "extractions (Suc n) (loaded (lone_button [])) = stamped n"
proof (induction n)
  case 0
  show ?case by (simp add: stamped_first)
next
  case (Suc n)
  have "extractions (Suc (Suc n)) (loaded (lone_button []))
          = snd (extractPageFeatures (extractions (Suc n) (loaded (lone_button []))))"
    by (rule extractions.simps)
  also have "\<dots> = snd (extractPageFeatures (stamped n))"
    by (simp only: Suc.IH)
  also have "\<dots> = stamped (Suc n)"
    by (rule stamped_next)
  finally show ?case .
qed

text \<open>
  Claim C10. On the page with one visible button that has no id, name or class (and no
  marker), extraction writes to the document and to the cache: after the extraction number
  \<open>n + 1\<close> the button carries \<^verbatim>\<open>data-bb-id\<close> with the marker of counter \<open>n\<close>, the
  cache holds one entry for each extraction so far, and the markers are pairwise
  distinct.
\<close>

theorem repeated_extraction_stamps_fresh_marker:
  "dom (extractions (Suc n) (loaded (lone_button []))) = lone_button [(''data-bb-id'', marker n)]
   \<and> elementCache (extractions (Suc n) (loaded (lone_button [])))
       = map (\<lambda>k. (marker k, 2)) [0..<Suc n]
   \<and> distinct (map marker [0..<Suc n])"
proof -
  have "distinct (map marker [0..<Suc n])"
    by (simp add: distinct_map inj_on_def marker_def decimal_inj del: upt_Suc)
  then show ?thesis
    unfolding extractions_stamped by (simp add: stamped_def loaded_def del: upt_Suc)
qed

text \<open>
  The theorem of C10 for the first and the third extraction: the button starts without
  the attribute, then carries \<^verbatim>\<open>bb-0\<close>, and after the third \<^verbatim>\<open>bb-2\<close>.
\<close>

theorem repeated_extraction_witness:
  \<open>map_of (attributes (shown 2 ''button'' [])) ''data-bb-id'' = None
   \<and> dom (extractions 1 (loaded (lone_button []))) = lone_button [(''data-bb-id'', ''bb-0'')]
   \<and> dom (extractions 3 (loaded (lone_button []))) = lone_button [(''data-bb-id'', ''bb-2'')]
   \<and> elementCache (extractions 3 (loaded (lone_button [])))
       = [(''bb-0'', 2), (''bb-1'', 2), (''bb-2'', 2)]\<close>
proof -
  have m: "marker 0 = ''bb-0''" "marker (Suc 0) = ''bb-1''" "marker (Suc (Suc 0)) = ''bb-2''"
    by (simp_all add: marker_def decimal.simps digits_def Let_def)
  have one: "(1::nat) = Suc 0" and three: "(3::nat) = Suc (Suc (Suc 0))" by simp_all
  have "dom (extractions (Suc 0) (loaded (lone_button []))) = lone_button [(''data-bb-id'', ''bb-0'')]"
    using repeated_extraction_stamps_fresh_marker[of 0] by (simp only: m)
  moreover have "dom (extractions (Suc (Suc (Suc 0))) (loaded (lone_button [])))
                   = lone_button [(''data-bb-id'', ''bb-2'')]
      \<and> elementCache (extractions (Suc (Suc (Suc 0))) (loaded (lone_button [])))
           = [(''bb-0'', 2), (''bb-1'', 2), (''bb-2'', 2)]"
    using repeated_extraction_stamps_fresh_marker[of "Suc (Suc 0)"]
    by (simp add: m upt_rec del: extractions.simps)
  ultimately show ?thesis
    by (simp only: one three) simp
qed

section \<open>Selectors that do not lead back\<close>

text \<open>
  Claim C1. On the page with the buttons of class \<^verbatim>\<open>a.b\<close> and of classes \<^verbatim>\<open>a b\<close>,
  the selector generated for the first button is \<^verbatim>\<open>button.a.b\<close>; the document has
  exactly one match for it, the second button, so the uniqueness test passes. The
  inventory holds the feature of the first button (text First) with that selector, and
  resolving the selector right after the extraction gives the second button (3), not the
  first (2).
\<close>

theorem selector_resolves_to_another_element:
  "fst (generateSelector (shown 2 ''button'' [(''class'', ''a.b'')]) (loaded dotted_class_page))
     = ''button.a.b''
   \<and> map_sum id refs (querySelectorAll dotted_class_page ''button.a.b'') = Inr [3]
   \<and> (case extractPageFeatures (loaded dotted_class_page) of
         (Inr resp, st) \<Rightarrow>
           map (\<lambda>f. (ftext f, selector f, getElementBySelector st (selector f))) (the (features resp))
             = [(''First'', ''button.a.b'', Some 3)]
       | (Inl ex, st) \<Rightarrow> False)"
  by code_simp

subsection \<open>What a generated selector does guarantee\<close>

lemma takeWhile_until:
  assumes "list_all P xs" and "\<not> P y"
  shows "takeWhile P (xs @ y # ys) = xs" and "dropWhile P (xs @ y # ys) = y # ys"
  using assms by (induction xs) simp_all

lemma decimal_digits: "set (decimal k) \<subseteq> set digits"
proof (induction k rule: decimal.induct)
  case (1 k)
  have "digits ! (k mod 10) \<in> set digits"
    by (rule nth_mem) (simp add: digits_def)
  with 1 show ?case
    by (subst decimal.simps) (auto simp: Let_def)
qed

lemma marker_unquoted: "list_all (\<lambda>x. x \<noteq> CHR 0x22) (marker k)" "marker k \<noteq> []"
proof -
  have "CHR 0x22 \<notin> set digits" by (simp add: digits_def)
  with decimal_digits[of k] show "list_all (\<lambda>x. x \<noteq> CHR 0x22) (marker k)"
    by (auto simp: marker_def list_all_iff)
  show "marker k \<noteq> []" by (simp add: marker_def)
qed

lemma match_bb_id_marker:
  assumes "list_all (\<lambda>x. x \<noteq> CHR 0x22) v" and "v \<noteq> []"
  shows \<open>match_bb_id (''[data-bb-id="'' @ v @ ''"]'') = Some v\<close>
proof -
  have dq: "\<not> (\<lambda>x. x \<noteq> CHR 0x22) (CHR 0x22)" by simp
  have \<open>takeWhile (\<lambda>x. x \<noteq> CHR 0x22) (v @ ''"]'') = v\<close>
    \<open>dropWhile (\<lambda>x. x \<noteq> CHR 0x22) (v @ ''"]'') = ''"]''\<close>
    using takeWhile_until[OF assms(1) dq, of "'']''"] by simp_all
  with assms(2) show ?thesis
    by (simp add: startsWith_def)
qed

lemma body_contains_update:
  assumes "\<And>e. ref (f e) = ref e"
  shows "body_contains (update_element r f d) x = body_contains d x"
proof -
  let ?g = "\<lambda>e. if ref e = r then f e else e"
  have g: "ref (?g e) = ref e" for e by (simp add: assms)
  have "map (\<lambda>l. ref (fst l)) (subtree_elements [html (update_element r f d)]
            (Element (body (update_element r f d)) (content (update_element r f d))))
        = map (\<lambda>l. ref (fst l)) (subtree_elements [html d] (Element (body d) (content d)))"
    using view_map_node[of ref ?g "[?g (html d)]" "Element (body d) (content d)" "[html d]", OF g]
    by (simp add: update_element_def Let_def)
  then show ?thesis
    by (simp add: body_contains_def case_prod_unfold)
qed

text \<open>
  A selector that \<open>generateSelector\<close> returns either leaves the engine as it is and
  has exactly one match in the document at that moment, or is the synthetic marker of the
  current counter, cached for the element; the marker resolves to the element at once when
  the element is inside the body.
\<close>

theorem generated_selector_forms:
  assumes "generateSelector el st = (s, st')"
  shows \<open>(st' = st \<and> matches_once (dom st) s)
         \<or> (s = ''[data-bb-id="'' @ marker (selectorCounter st) @ ''"]''
            \<and> map_of (elementCache st') (marker (selectorCounter st)) = Some (ref el)
            \<and> (if body_contains (dom st) (ref el) then getElementBySelector st' s = Some (ref el)
                else True))\<close>
proof (cases "usable (dom st) (id_selector el) \<or> usable (dom st) (name_selector el)
                \<or> usable (dom st) (class_selector el)")
  case True
  with assms show ?thesis
    by (auto simp: generateSelector_def usable_def split: if_splits option.splits)
next
  case False
  let ?m = "marker (selectorCounter st)"
  from False assms have s: \<open>s = ''[data-bb-id="'' @ ?m @ ''"]''\<close>
    and st': "st' = st\<lparr>selectorCounter := selectorCounter st + 1,
                elementCache := AList.update ?m (ref el) (elementCache st),
                dom := setAttribute (ref el) ''data-bb-id'' ?m (dom st)\<rparr>"
    by (simp_all add: generateSelector_def Let_def marker_def)
  have cache: "map_of (elementCache st') ?m = Some (ref el)"
    by (simp add: st' update_conv')
  have m: "match_bb_id s = Some ?m"
    unfolding s by (rule match_bb_id_marker) (rule marker_unquoted)+
  have "body_contains (dom st') x = body_contains (dom st) x" for x
    by (simp add: st' setAttribute_def body_contains_update)
  with cache m have "body_contains (dom st) (ref el) \<Longrightarrow> getElementBySelector st' s = Some (ref el)"
    by (simp add: getElementBySelector_def cached_element_def)
  with s cache show ?thesis by simp
qed

text \<open>The theorem on the one-button page: the marker \<^verbatim>\<open>bb-0\<close> leads back to the button.\<close>

theorem generated_selector_forms_witness:
  \<open>fst (generateSelector (shown 2 ''button'' []) (loaded (lone_button []))) = ''[data-bb-id="bb-0"]''
   \<and> elementCache (snd (generateSelector (shown 2 ''button'' []) (loaded (lone_button []))))
       = [(''bb-0'', 2)]
   \<and> getElementBySelector (snd (generateSelector (shown 2 ''button'' []) (loaded (lone_button []))))
         ''[data-bb-id="bb-0"]'' = Some 2\<close>
proof -
  let ?b = "shown 2 ''button'' []" and ?l = "loaded (lone_button [])"
  have g: "generateSelector ?b ?l = (fst (generateSelector ?b ?l), snd (generateSelector ?b ?l))"
    by simp
  have changed: "snd (generateSelector ?b ?l) \<noteq> ?l"
  proof
    assume "snd (generateSelector ?b ?l) = ?l"
    then have "selectorCounter (snd (generateSelector ?b ?l)) = selectorCounter ?l" by simp
    moreover have "selectorCounter (snd (generateSelector ?b ?l)) = 1" by code_simp
    moreover have "selectorCounter ?l = 0" by (simp add: loaded_def)
    ultimately show False by simp
  qed
  have inside: "body_contains (dom ?l) (ref ?b)" by code_simp
  have m: "marker (selectorCounter ?l) = ''bb-0''" by code_simp
  have cache: "elementCache (snd (generateSelector ?b ?l)) = [(''bb-0'', 2)]" by code_simp
  from generated_selector_forms[OF g] changed inside cache show ?thesis
    by (auto simp: m)
qed

section \<open>Exceptions during extraction\<close>




subsection \<open>A page with one button, whatever its attributes\<close>











text \<open>
  The exception that does leave the extraction: on the page with the visible input of id
  \<^verbatim>\<open>a"b\<close>, \<open>findLabelFor\<close> asks the document for \<^verbatim>\<open>label[for="a"b"]\<close>, which is no
  selector, outside any \<^verbatim>\<open>try\<close>; \<open>extractPageFeatures\<close> throws, and
  \<open>executeAction\<close> is rejected.
\<close>

theorem extraction_throws_on_quoted_id:
  \<open>querySelectorAll quoted_id_page ''label[for="a"b"]'' = Inl SyntaxError
   \<and> fst (extractPageFeatures (loaded quoted_id_page)) = Inl SyntaxError
   \<and> fst (executeAction (click_payload (Number 0)) (loaded quoted_id_page)) = Inl SyntaxError\<close>
  by code_simp

text \<open>
  Two more exceptions leave the extraction, both of type \<open>TypeError\<close>: a visible link
  inside an inline \<^verbatim>\<open>svg\<close> has no \<^verbatim>\<open>innerText\<close>, and a button candidate without text
  whose \<^verbatim>\<open>value\<close> is a number other than 0 has a number for its text.
\<close>

theorem extraction_throws_type_error:
  "fst (extractPageFeatures (loaded svg_link_page)) = Inl TypeError
   \<and> fst (extractPageFeatures (loaded numbered_item_page)) = Inl TypeError"
  by code_simp

text \<open>
  A CLICK can be rejected as well: an \<^verbatim>\<open>svg\<close> element with the role of a button is
  in the inventory, and the click on it, after the highlight and the pointer cue, calls a
  method the element does not have.
\<close>

theorem click_on_svg_element_rejects:
  "(case extractPageFeatures (loaded svg_button_page) of
      (Inr resp, st) \<Rightarrow>
        map (\<lambda>f. (ftype f, ftext f, getElementBySelector st (selector f))) (the (features resp))
          = [(Button, ''Menu'', Some 2)]
    | (Inl ex, st) \<Rightarrow> False)
   \<and> fst (executeAction (click_payload (Number 0)) (loaded svg_button_page)) = Inl TypeError
   \<and> trace (snd (executeAction (click_payload (Number 0)) (loaded svg_button_page)))
       = [ClearAllHighlights, ScrollIntoView 2, HighlightElement 2 5000, Await 500,
          MovePointerToElement 2, Await 800]"
  by code_simp

section \<open>The clicked memo\<close>

text \<open>
  Claim C4. On the page with one button that has no id, name or class, a successful
  CLICK records the selector \<^verbatim>\<open>[data-bb-id="bb-1"]\<close> in the memo; the next extraction
  emits the feature of the same button with the selector \<^verbatim>\<open>[data-bb-id="bb-2"]\<close> and
  \<open>already_clicked\<close> false.
\<close>

theorem clicked_button_not_marked_clicked:
  \<open>(case executeAction (click_payload (Number 0)) (loaded (lone_button [])) of
      (Inr r, st) \<Rightarrow>
         r = succeeded ''Clicked: Go''
         \<and> Click 2 \<in> set (trace st)
         \<and> clickedElements st = [''[data-bb-id="bb-1"]'']
         \<and> (case extractPageFeatures st of
               (Inr resp, st') \<Rightarrow>
                 map (\<lambda>f. (ftext f, selector f, getElementBySelector st' (selector f), already_clicked f))
                   (the (features resp))
                   = [(''Go'', ''[data-bb-id="bb-2"]'', Some 2, False)]
             | (Inl ex, st') \<Rightarrow> False)
    | (Inl ex, st) \<Rightarrow> False)\<close>
  by code_simp

section \<open>Labels of inputs\<close>

text \<open>
  Claim C7. On the page with the input whose name has 101 characters, the inventory holds
  one feature, of type input, and its text has 101 characters: the label of an input is
  not cut to 100 characters as the labels of links and buttons are.
\<close>

theorem input_label_longer_than_100:
  "(case extractPageFeatures (loaded long_name_page) of
      (Inr resp, st) \<Rightarrow>
        map (\<lambda>f. (ftype f, length (ftext f))) (the (features resp)) = [(Input, 101)]
    | (Inl ex, st) \<Rightarrow> False)"
  by code_simp

subsection \<open>Labels of links and buttons\<close>

lemma collect_links_all:
  assumes "\<And>r seen idx st f seen' st'. link_step r seen idx st = Inr (Some f, seen', st') \<Longrightarrow> P f"
  shows "collect_links rs fs seen idx st = (Inr (fs', idx'), st') \<Longrightarrow> list_all P fs
           \<Longrightarrow> list_all P fs'"
proof (induction rs arbitrary: fs seen idx st)
  case Nil
  then show ?case by simp
next
  case (Cons r rs)
  show ?case
  proof (cases "length fs \<ge> 60")
    case True
    with Cons.prems show ?thesis by simp
  next
    case False
    with Cons.prems(1) obtain o' seen1 st1 where
      step: "link_step r seen idx st = Inr (o', seen1, st1)"
      by (cases "link_step r seen idx st") auto
    show ?thesis
    proof (cases o')
      case None
      with False step Cons.prems(1)
      have "collect_links rs fs seen1 idx st1 = (Inr (fs', idx'), st')"
        by simp
      then show ?thesis using Cons.prems(2) by (rule Cons.IH)
    next
      case (Some f)
      with False step Cons.prems(1)
      have "collect_links rs (fs @ [f]) seen1 (idx + 1) st1 = (Inr (fs', idx'), st')" by simp
      moreover from step Some assms have "P f" by blast
      with Cons.prems(2) have "list_all P (fs @ [f])" by simp
      ultimately show ?thesis by (rule Cons.IH)
    qed
  qed
qed

lemma collect_buttons_all:
  assumes "\<And>r seen idx st f seen' st'.
             button_step r acts seen idx st = Inr (Some f, seen', st') \<Longrightarrow> P f"
  shows "collect_buttons rs acts fs seen idx st = (Inr (fs', idx'), st') \<Longrightarrow> list_all P fs
           \<Longrightarrow> list_all P fs'"
proof (induction rs arbitrary: fs seen idx st)
  case Nil
  then show ?case by simp
next
  case (Cons r rs)
  show ?case
  proof (cases "length fs \<ge> 75")
    case True
    with Cons.prems show ?thesis by simp
  next
    case False
    with Cons.prems(1) obtain o' seen1 st1 where
      step: "button_step r acts seen idx st = Inr (o', seen1, st1)"
      by (cases "button_step r acts seen idx st") auto
    show ?thesis
    proof (cases o')
      case None
      with False step Cons.prems(1)
      have "collect_buttons rs acts fs seen1 idx st1 = (Inr (fs', idx'), st')"
        by simp
      then show ?thesis using Cons.prems(2) by (rule Cons.IH)
    next
      case (Some f)
      with False step Cons.prems(1)
      have "collect_buttons rs acts (fs @ [f]) seen1 (idx + 1) st1 = (Inr (fs', idx'), st')"
        by simp
      moreover from step Some assms have "P f" by blast
      with Cons.prems(2) have "list_all P (fs @ [f])" by simp
      ultimately show ?thesis by (rule Cons.IH)
    qed
  qed
qed

lemma dedupe_subset: "set (dedupe seen fs) \<subseteq> set fs"
  by (induction fs arbitrary: seen) auto

lemma reindex_member:
  assumes "f \<in> set (reindex gs)"
  shows "\<exists>g \<in> set gs. ftype f = ftype g \<and> ftext f = ftext g"
proof -
  from assms obtain i g where "(i, g) \<in> set (enumerate 0 gs)" and f: "f = g\<lparr>index := i\<rparr>"
    by (auto simp: reindex_def)
  then have "g \<in> set gs" by (auto simp: in_set_enumerate_eq)
  with f show ?thesis by auto
qed

text \<open>
  In every inventory the text of a feature that is not an input has at most 100
  characters.
\<close>

theorem link_and_button_labels_bounded:
  assumes "extractPageFeatures st = (Inr resp, st')"
  shows "\<exists>fs. features resp = Some fs
           \<and> list_all (\<lambda>f. ftype f = Input \<or> length (ftext f) \<le> 100) fs"
proof -
  let ?P = "\<lambda>f. ftype f = Input \<or> length (ftext f) \<le> 100"
  from assms obtain ls i1 s1 ins i2 s2 bs i3 where
    links: "collect_links (productLinks (dom st) @ otherLinks (dom st)) [] [] 0 st
              = (Inr (ls, i1), s1)"
    and ins: "collect_inputs (inputs (dom s1)) [] i1 s1 = (Inr (ins, i2), s2)"
    and buttons: "collect_buttons (actionButtons (dom s2) @ otherButtons (dom s2))
                    (actionButtons (dom s2)) [] [] i2 s2 = (Inr (bs, i3), st')"
    and resp: "resp = extraction_result (dom st) (reindex (dedupe [] (ls @ ins @ bs)))"
    by (auto simp: extractPageFeatures_def split: prod.splits sum.splits)
  have "list_all ?P ls"
    by (rule collect_links_all[of ?P, OF _ links]) (use link_step_feature in auto)
  moreover have "list_all ?P ins"
    using collect_inputs_bound[OF ins] by (simp add: list_all_iff)
  moreover have "list_all ?P bs"
    by (rule collect_buttons_all[of _ ?P, OF _ buttons]) (use button_step_feature in auto)
  ultimately have all: "\<forall>g \<in> set (ls @ ins @ bs). ?P g"
    by (auto simp: list_all_iff)
  have "?P f" if "f \<in> set (reindex (dedupe [] (ls @ ins @ bs)))" for f
  proof -
    from reindex_member[OF that] obtain g where "g \<in> set (dedupe [] (ls @ ins @ bs))"
      and same: "ftype f = ftype g" "ftext f = ftext g" by blast
    with dedupe_subset have "g \<in> set (ls @ ins @ bs)" by blast
    with all same show ?thesis by auto
  qed
  then show ?thesis
    by (simp add: resp extraction_result_def list_all_iff)
qed

text \<open>The theorem on the shop page, with the lengths of the three labels.\<close>

theorem link_and_button_labels_witness:
  "\<exists>resp st'. extractPageFeatures (loaded shop_page) = (Inr resp, st')
      \<and> (\<exists>fs. features resp = Some fs
            \<and> map (\<lambda>f. (ftype f, length (ftext f))) fs = [(Link, 4), (Input, 1), (Button, 3)]
            \<and> list_all (\<lambda>f. ftype f = Input \<or> length (ftext f) \<le> 100) fs)"
proof -
  have "case extractPageFeatures (loaded shop_page) of
          (Inr resp, st') \<Rightarrow>
            map (\<lambda>f. (ftype f, length (ftext f))) (the (features resp))
              = [(Link, 4), (Input, 1), (Button, 3)]
        | (Inl ex, st') \<Rightarrow> False"
    by code_simp
  then obtain resp st' where run: "extractPageFeatures (loaded shop_page) = (Inr resp, st')"
    and lens: "map (\<lambda>f. (ftype f, length (ftext f))) (the (features resp))
                 = [(Link, 4), (Input, 1), (Button, 3)]"
    by (auto split: prod.splits sum.splits)
  from link_and_button_labels_bounded[OF run] lens run show ?thesis
    by auto
qed

end
